theory Spec2Isabelle
  imports Complex_Main
begin

section \<open>Data model\<close>

text \<open>
  The graph types of the application (\<^verbatim>\<open>GraphNode\<close>, \<^verbatim>\<open>GraphEdge\<close>). The field
  \<^verbatim>\<open>type\<close> is declared as a union of four string literals, but the data comes from
  an external service at run time and both components handle any other string, so it
  is a \<^typ>\<open>string\<close> here. JavaScript numbers are modelled as real numbers: rounding
  of IEEE doubles is not part of the model. A string is a list of characters, and its
  length the number of its characters.
\<close>

record GraphNode =
  node_id :: string
  node_label :: string
  node_type :: string

record GraphEdge =
  edge_from :: string
  edge_to :: string
  edge_label :: string

text \<open>An object \<^verbatim>\<open>{x, y}\<close>, and a node spread together with its position.\<close>

record Pos =
  pos_x :: real
  pos_y :: real

record PositionedNode = GraphNode +
  at_x :: real
  at_y :: real

section \<open>ColorPolicy\<close>

text \<open>\<^verbatim>\<open>getNodeColor\<close> of the full-screen component (a \<^verbatim>\<open>switch\<close> on the type).\<close>

definition getNodeColor_fs :: "string \<Rightarrow> string" where
  "getNodeColor_fs t =
     (if t = ''risk'' then ''#ef4444''
      else if t = ''outcome'' then ''#f59e0b''
      else if t = ''action'' then ''#10b981''
      else if t = ''entity'' then ''#06b6d4''
      else ''#64748b'')"

text \<open>\<^verbatim>\<open>getNodeColor\<close> of the compact component.\<close>

definition getNodeColor_compact :: "string \<Rightarrow> string" where
  "getNodeColor_compact t =
     (if t = ''risk'' then ''#ef4444''
      else if t = ''outcome'' then ''#f59e0b''
      else if t = ''action'' then ''#10b981''
      else if t = ''entity'' then ''#06b6d4''
      else ''#94a3b8'')"


section \<open>LayoutEngine\<close>

text \<open>
  \<^verbatim>\<open>Array.prototype.forEach\<close> with the element and its index, for a callback that
  updates a state (here the position map the callback writes to).
\<close>

fun forEach :: "('a \<Rightarrow> nat \<Rightarrow> 's \<Rightarrow> 's) \<Rightarrow> 'a list \<Rightarrow> nat \<Rightarrow> 's \<Rightarrow> 's" where
  "forEach f [] i s = s"
| "forEach f (a # as) i s = forEach f as (Suc i) (f a i s)"

text \<open>The category filters at the head of \<^verbatim>\<open>nodePositions\<close>.\<close>

definition entities :: "GraphNode list \<Rightarrow> GraphNode list" where
  "entities nodes = filter (\<lambda>n. node_type n = ''entity'') nodes"

definition actions :: "GraphNode list \<Rightarrow> GraphNode list" where
  "actions nodes = filter (\<lambda>n. node_type n = ''action'') nodes"

definition risks :: "GraphNode list \<Rightarrow> GraphNode list" where
  "risks nodes = filter (\<lambda>n. node_type n = ''risk'') nodes"

definition outcomes :: "GraphNode list \<Rightarrow> GraphNode list" where
  "outcomes nodes = filter (\<lambda>n. node_type n = ''outcome'') nodes"

definition results :: "GraphNode list \<Rightarrow> GraphNode list" where
  "results nodes = filter (\<lambda>n. node_type n \<in> set [''risk'', ''outcome'']) nodes"

definition others :: "GraphNode list \<Rightarrow> GraphNode list" where
  "others nodes =
     filter (\<lambda>n. \<not> node_type n \<in> set [''entity'', ''action'', ''risk'', ''outcome'']) nodes"

subsection \<open>Full-screen component\<close>

definition width_fs :: real where "width_fs = 800"
definition height_fs :: real where "height_fs = 600"
definition cx_fs :: real where "cx_fs = width_fs / 2"
definition cy_fs :: real where "cy_fs = height_fs / 2"

text \<open>
  \<^verbatim>\<open>distribute(list, radiusX, radiusY, startAngle)\<close>: returns at once on an empty list,
  otherwise writes one position per element into the position map, in list order (a
  later write to the same id replaces the earlier one).
\<close>

definition distribute_fs ::
  "GraphNode list \<Rightarrow> real \<Rightarrow> real \<Rightarrow> real \<Rightarrow> (string \<rightharpoonup> Pos) \<Rightarrow> (string \<rightharpoonup> Pos)" where
  "distribute_fs lst radiusX radiusY startAngle posMap =
     (let count = length lst in
      if count = 0 then posMap
      else
        let step = (2 * pi) / real count in
        forEach (\<lambda>node i m.
                   let angle = startAngle + real i * step - pi / 2
                   in m(node_id node \<mapsto> \<lparr>pos_x = cx_fs + radiusX * cos angle,
                                          pos_y = cy_fs + radiusY * sin angle\<rparr>))
                lst 0 posMap)"

text \<open>The list handed to the third \<^verbatim>\<open>distribute\<close> call, \<^verbatim>\<open>[...results, ...others]\<close>.\<close>

definition tier2_fs :: "GraphNode list \<Rightarrow> GraphNode list" where
  "tier2_fs nodes = results nodes @ others nodes"

definition posMap_fs :: "GraphNode list \<Rightarrow> (string \<rightharpoonup> Pos)" where
  "posMap_fs nodes =
     (let m0 = Map.empty;
          m1 = (if length (entities nodes) = 1
                then m0(node_id (entities nodes ! 0) \<mapsto> \<lparr>pos_x = cx_fs, pos_y = cy_fs\<rparr>)
                else distribute_fs (entities nodes) 100 80 0 m0);
          m2 = distribute_fs (actions nodes) 220 160 0.5 m1
      in distribute_fs (tier2_fs nodes) 320 240 1 m2)"

definition nodePositions_fs :: "GraphNode list \<Rightarrow> PositionedNode list" where
  "nodePositions_fs nodes =
     map (\<lambda>n. let p = (case posMap_fs nodes (node_id n) of
                         Some q \<Rightarrow> q
                       | None \<Rightarrow> \<lparr>pos_x = cx_fs, pos_y = cy_fs\<rparr>)
               in \<lparr>node_id = node_id n, node_label = node_label n, node_type = node_type n,
                   at_x = pos_x p, at_y = pos_y p\<rparr>)
         nodes"

subsection \<open>Compact component\<close>

definition width_compact :: real where "width_compact = 400"
definition height_compact :: real where "height_compact = 300"
definition cx_compact :: real where "cx_compact = width_compact / 2"
definition cy_compact :: real where "cy_compact = height_compact / 2"

text \<open>\<^verbatim>\<open>distribute(list, radius, startAngle)\<close> of the compact component.\<close>

definition distribute_compact ::
  "GraphNode list \<Rightarrow> real \<Rightarrow> real \<Rightarrow> (string \<rightharpoonup> Pos) \<Rightarrow> (string \<rightharpoonup> Pos)" where
  "distribute_compact lst radius startAngle posMap =
     (let count = length lst in
      if count = 0 then posMap
      else
        let step = (2 * pi) / real count in
        forEach (\<lambda>node i m.
                   let angle = startAngle + real i * step - pi / 2
                   in m(node_id node \<mapsto> \<lparr>pos_x = cx_compact + radius * cos angle,
                                          pos_y = cy_compact + radius * sin angle\<rparr>))
                lst 0 posMap)"

text \<open>The list handed to the third call, \<^verbatim>\<open>[...risks, ...outcomes, ...others]\<close>.\<close>

definition tier2_compact :: "GraphNode list \<Rightarrow> GraphNode list" where
  "tier2_compact nodes = risks nodes @ outcomes nodes @ others nodes"

definition posMap_compact :: "GraphNode list \<Rightarrow> (string \<rightharpoonup> Pos)" where
  "posMap_compact nodes =
     (let m0 = Map.empty;
          m1 = (if length (entities nodes) = 1
                then m0(node_id (entities nodes ! 0) \<mapsto> \<lparr>pos_x = cx_compact, pos_y = cy_compact\<rparr>)
                else distribute_compact (entities nodes) 40 0 m0);
          m2 = distribute_compact (actions nodes) 90 0.5 m1
      in distribute_compact (tier2_compact nodes) 130 1 m2)"

definition nodePositions_compact :: "GraphNode list \<Rightarrow> PositionedNode list" where
  "nodePositions_compact nodes =
     map (\<lambda>n. let p = (case posMap_compact nodes (node_id n) of
                         Some q \<Rightarrow> q
                       | None \<Rightarrow> \<lparr>pos_x = cx_compact, pos_y = cy_compact\<rparr>)
               in \<lparr>node_id = node_id n, node_label = node_label n, node_type = node_type n,
                   at_x = pos_x p, at_y = pos_y p\<rparr>)
         nodes"

subsection \<open>The ring orders the specification speaks of\<close>

text \<open>
  Not part of the source: the two orders used to state what the outer ring holds.
  \<open>risk_outcome_other_rank\<close> is the order "risk, then outcome, then other" of the
  specification; \<open>results_other_rank\<close> puts risk and outcome nodes in one group before
  the others. \<open>outer_ring_member\<close> holds for the nodes that are neither entity nor action.
\<close>

definition risk_outcome_other_rank :: "GraphNode \<Rightarrow> nat" where
  "risk_outcome_other_rank n =
     (if node_type n = ''risk'' then 0 else if node_type n = ''outcome'' then 1 else 2)"

definition results_other_rank :: "GraphNode \<Rightarrow> nat" where
  "results_other_rank n =
     (if node_type n = ''risk'' \<or> node_type n = ''outcome'' then 0 else 1)"

definition outer_ring_member :: "GraphNode \<Rightarrow> bool" where
  "outer_ring_member n = (node_type n \<noteq> ''entity'' \<and> node_type n \<noteq> ''action'')"

text \<open>
  Not part of the source either: the distribution rule in the words of the
  specification. For a tier of \<open>n\<close> nodes at radius \<open>(rx, ry)\<close> with phase \<open>theta0\<close>
  around the centre \<open>(cx, cy)\<close>, the slot of index \<open>i\<close> is at angle
  \<open>theta0 + i * (2 * pi / n) - pi / 2\<close>.
\<close>

definition ring_slot :: "real \<Rightarrow> real \<Rightarrow> real \<Rightarrow> real \<Rightarrow> real \<Rightarrow> nat \<Rightarrow> nat \<Rightarrow> Pos" where
  "ring_slot cx cy rx ry theta0 n i =
     (let angle = theta0 + real i * (2 * pi / real n) - pi / 2
      in \<lparr>pos_x = cx + rx * cos angle, pos_y = cy + ry * sin angle\<rparr>)"

section \<open>ViewportController (full-screen component)\<close>

text \<open>
  The pan/zoom state of \<^verbatim>\<open>FullScreenGraph\<close>: the \<^verbatim>\<open>viewState\<close> object, the
  \<^verbatim>\<open>isDragging\<close> flag and the \<^verbatim>\<open>lastMousePos\<close> reference. Every handler is a function
  from the state before the event to the state after it. The handlers that read
  \<^verbatim>\<open>viewState\<close> or \<^verbatim>\<open>isDragging\<close> of the last render (\<^verbatim>\<open>handleWheel\<close>,
  \<^verbatim>\<open>handleMouseMove\<close>) are modelled on the current state: the component has rendered
  again since the previous event.
\<close>

record ViewState =
  view_x :: real
  view_y :: real
  view_scale :: real

record Viewport =
  viewState :: ViewState
  isDragging :: bool
  lastMousePos :: Pos

definition initialViewport :: Viewport where
  "initialViewport =
     \<lparr>viewState = \<lparr>view_x = 0, view_y = 0, view_scale = 1\<rparr>,
      isDragging = False,
      lastMousePos = \<lparr>pos_x = 0, pos_y = 0\<rparr>\<rparr>"

definition handleWheel :: "real \<Rightarrow> Viewport \<Rightarrow> Viewport" where
  "handleWheel deltaY s =
     (let delta = - deltaY * 0.001;
          newScale = min (max 0.2 (view_scale (viewState s) + delta)) 4
      in s\<lparr>viewState := (viewState s)\<lparr>view_scale := newScale\<rparr>\<rparr>)"

definition handleMouseDown :: "real \<Rightarrow> real \<Rightarrow> Viewport \<Rightarrow> Viewport" where
  "handleMouseDown clientX clientY s =
     s\<lparr>isDragging := True, lastMousePos := \<lparr>pos_x = clientX, pos_y = clientY\<rparr>\<rparr>"

definition handleMouseMove :: "real \<Rightarrow> real \<Rightarrow> Viewport \<Rightarrow> Viewport" where
  "handleMouseMove clientX clientY s =
     (if \<not> isDragging s then s
      else
        let dx = clientX - pos_x (lastMousePos s);
            dy = clientY - pos_y (lastMousePos s)
        in s\<lparr>lastMousePos := \<lparr>pos_x = clientX, pos_y = clientY\<rparr>,
              viewState := (viewState s)\<lparr>view_x := view_x (viewState s) + dx,
                                         view_y := view_y (viewState s) + dy\<rparr>\<rparr>)"

definition handleMouseUp :: "Viewport \<Rightarrow> Viewport" where
  "handleMouseUp s = s\<lparr>isDragging := False\<rparr>"

definition resetView :: "Viewport \<Rightarrow> Viewport" where
  "resetView s = s\<lparr>viewState := \<lparr>view_x = 0, view_y = 0, view_scale = 1\<rparr>\<rparr>"

definition zoomIn :: "Viewport \<Rightarrow> Viewport" where
  "zoomIn s = s\<lparr>viewState := (viewState s)\<lparr>view_scale := min (view_scale (viewState s) + 0.2) 4\<rparr>\<rparr>"

definition zoomOut :: "Viewport \<Rightarrow> Viewport" where
  "zoomOut s = s\<lparr>viewState := (viewState s)\<lparr>view_scale := max (view_scale (viewState s) - 0.2) 0.2\<rparr>\<rparr>"

text \<open>
  The events the canvas and the three buttons deliver. \<^verbatim>\<open>onMouseLeave\<close> of the canvas
  is bound to \<^verbatim>\<open>handleMouseUp\<close>.
\<close>

datatype ViewportOp =
    Wheel real
  | MouseDown real real
  | MouseMove real real
  | MouseUp
  | MouseLeave
  | ResetView
  | ZoomIn
  | ZoomOut

fun applyOp :: "ViewportOp \<Rightarrow> Viewport \<Rightarrow> Viewport" where
  "applyOp (Wheel deltaY) s = handleWheel deltaY s"
| "applyOp (MouseDown cx cy) s = handleMouseDown cx cy s"
| "applyOp (MouseMove cx cy) s = handleMouseMove cx cy s"
| "applyOp MouseUp s = handleMouseUp s"
| "applyOp MouseLeave s = handleMouseUp s"
| "applyOp ResetView s = resetView s"
| "applyOp ZoomIn s = zoomIn s"
| "applyOp ZoomOut s = zoomOut s"

fun runOps :: "ViewportOp list \<Rightarrow> Viewport \<Rightarrow> Viewport" where
  "runOps [] s = s"
| "runOps (ev # evs) s = runOps evs (applyOp ev s)"

section \<open>InteractionState\<close>

text \<open>
  The hover state \<^verbatim>\<open>hoveredNodeId\<close> (\<^verbatim>\<open>string | null\<close>) and the two handlers
  each node group installs, \<^verbatim>\<open>onMouseEnter\<close> and \<^verbatim>\<open>onMouseLeave\<close>. They are the same
  in the compact and in the full-screen component. The first argument is the node
  whose group received the event.
\<close>

definition onMouseEnter :: "'a GraphNode_scheme \<Rightarrow> string option \<Rightarrow> string option" where
  "onMouseEnter node hoveredNodeId = Some (node_id node)"

definition onMouseLeave :: "'a GraphNode_scheme \<Rightarrow> string option \<Rightarrow> string option" where
  "onMouseLeave node hoveredNodeId = None"

section \<open>RenderPipeline\<close>

text \<open>
  The scene each component returns, as data: one optional element per edge (\<^verbatim>\<open>null\<close>
  is \<open>None\<close>: nothing is rendered for that edge), one element per node, and the
  optional tooltip. Only the attributes computed from the state are kept; constant
  decoration (markers, filters, class names) is left out.

  \<^verbatim>\<open>hoveredNodeId\<close> has type \<^verbatim>\<open>string | null\<close> and the components test it by its
  truthiness: \<^verbatim>\<open>null\<close> and the empty string are falsy, every other string is truthy.
\<close>

definition truthy :: "string option \<Rightarrow> bool" where
  "truthy hoveredNodeId = (case hoveredNodeId of None \<Rightarrow> False | Some s \<Rightarrow> s \<noteq> [])"

text \<open>
  \<^verbatim>\<open>hoveredNodeId && (edge.from === hoveredNodeId || edge.to === hoveredNodeId)\<close>,
  as the truth value the later tests take of it.
\<close>

definition isConnectedToHover :: "string option \<Rightarrow> GraphEdge \<Rightarrow> bool" where
  "isConnectedToHover hoveredNodeId edge =
     (truthy hoveredNodeId
      \<and> (Some (edge_from edge) = hoveredNodeId \<or> Some (edge_to edge) = hoveredNodeId))"

text \<open>\<^verbatim>\<open>hoveredNodeId === node.id\<close> and \<^verbatim>\<open>hoveredNodeId && hoveredNodeId !== node.id\<close>.\<close>

definition isHovered :: "string option \<Rightarrow> PositionedNode \<Rightarrow> bool" where
  "isHovered hoveredNodeId node = (hoveredNodeId = Some (node_id node))"

definition isDimmed :: "string option \<Rightarrow> PositionedNode \<Rightarrow> bool" where
  "isDimmed hoveredNodeId node = (truthy hoveredNodeId \<and> hoveredNodeId \<noteq> Some (node_id node))"

text \<open>\<^verbatim>\<open>nodePositions.find(n => n.id === id)\<close>: the first positioned node with that id.\<close>

definition findNode :: "PositionedNode list \<Rightarrow> string \<Rightarrow> PositionedNode option" where
  "findNode nodePositions ident = find (\<lambda>n. node_id n = ident) nodePositions"

text \<open>\<^verbatim>\<open>activeNode = nodePositions.find(n => n.id === hoveredNodeId)\<close>.\<close>

definition activeNode :: "PositionedNode list \<Rightarrow> string option \<Rightarrow> PositionedNode option" where
  "activeNode nodePositions hoveredNodeId =
     find (\<lambda>n. Some (node_id n) = hoveredNodeId) nodePositions"

record TextElem =
  tx_x :: real
  tx_y :: real
  tx_fill :: string
  tx_fontSize :: real
  tx_content :: string

text \<open>The tooltip group: its \<^verbatim>\<open>translate\<close>, the stroke of its panel and its text lines.\<close>

record Tooltip =
  tt_x :: real
  tt_y :: real
  tt_stroke :: string
  tt_texts :: "string list"

subsection \<open>Full-screen component\<close>

record EdgeElem_fs =
  fe_opacity :: real
  fe_x1 :: real
  fe_y1 :: real
  fe_x2 :: real
  fe_y2 :: real
  fe_stroke :: string
  fe_strokeWidth :: real
  fe_label :: "TextElem option"

record NodeElem_fs =
  fn_opacity :: real
  fn_cx :: real
  fn_cy :: real
  fn_ring_r :: real
  fn_ring_strokeWidth :: real
  fn_r :: real
  fn_fill :: string
  fn_stroke :: string
  fn_strokeWidth :: real
  fn_label :: "TextElem option"

text \<open>
  The body of \<^verbatim>\<open>edges.map\<close>: \<^verbatim>\<open>null\<close> when either end is not found. The widths and
  font sizes divide by the scale, which the viewport handlers keep at 0.2 or more.
\<close>

definition renderEdge_fs ::
  "PositionedNode list \<Rightarrow> string option \<Rightarrow> ViewState \<Rightarrow> GraphEdge \<Rightarrow> EdgeElem_fs option" where
  "renderEdge_fs nodePositions hoveredNodeId vs edge =
     (case findNode nodePositions (edge_from edge) of
        None \<Rightarrow> None
      | Some start \<Rightarrow>
         (case findNode nodePositions (edge_to edge) of
            None \<Rightarrow> None
          | Some end \<Rightarrow>
             let connected = isConnectedToHover hoveredNodeId edge in
             Some \<lparr>fe_opacity = (if truthy hoveredNodeId \<and> \<not> connected then 0.1 else 1),
                   fe_x1 = at_x start, fe_y1 = at_y start,
                   fe_x2 = at_x end, fe_y2 = at_y end,
                   fe_stroke = (if connected then ''#22d3ee'' else ''url(#edgeGradientFS)''),
                   fe_strokeWidth = (if connected then 3 / view_scale vs else 1.5 / view_scale vs),
                   fe_label =
                     (if (\<not> truthy hoveredNodeId \<or> connected) \<and> view_scale vs > 0.6
                      then Some \<lparr>tx_x = (at_x start + at_x end) / 2,
                                  tx_y = (at_y start + at_y end) / 2,
                                  tx_fill = (if connected then ''#22d3ee'' else ''#64748b''),
                                  tx_fontSize = 10 / view_scale vs + 2,
                                  tx_content = edge_label edge\<rparr>
                      else None)\<rparr>))"

text \<open>The body of \<^verbatim>\<open>nodePositions.map\<close>.\<close>

definition renderNode_fs :: "string option \<Rightarrow> ViewState \<Rightarrow> PositionedNode \<Rightarrow> NodeElem_fs" where
  "renderNode_fs hoveredNodeId vs node =
     (let hovered = isHovered hoveredNodeId node;
          dimmed = isDimmed hoveredNodeId node
      in \<lparr>fn_opacity = (if dimmed then 0.3 else 1),
          fn_cx = at_x node, fn_cy = at_y node,
          fn_ring_r = (if hovered then 32 else 0),
          fn_ring_strokeWidth = 1 / view_scale vs,
          fn_r = (if hovered then 18 else 14),
          fn_fill = (if hovered then ''#fff'' else ''#0f172a''),
          fn_stroke = getNodeColor_fs (node_type node),
          fn_strokeWidth = (if hovered then 0 else 2),
          fn_label =
            (if view_scale vs > 0.4
             then Some \<lparr>tx_x = at_x node, tx_y = at_y node + 35,
                         tx_fill = (if hovered then ''white'' else ''#cbd5e1''),
                         tx_fontSize = (if hovered then 16 else 12) / view_scale vs + 2,
                         tx_content = node_label node\<rparr>
             else None)\<rparr>)"

text \<open>
  The static overlay tooltip: \<^verbatim>\<open>translate(20, 20)\<close>, with the label, the type and a
  fixed hint as its three text lines.
\<close>

definition tooltip_fs :: "PositionedNode list \<Rightarrow> string option \<Rightarrow> Tooltip option" where
  "tooltip_fs nodePositions hoveredNodeId =
     (case activeNode nodePositions hoveredNodeId of
        None \<Rightarrow> None
      | Some node \<Rightarrow>
          Some \<lparr>tt_x = 20, tt_y = 20,
                tt_stroke = getNodeColor_fs (node_type node),
                tt_texts = [node_label node, node_type node, ''Double click to focus'']\<rparr>)"

text \<open>
  The returned tree: the group with the pan/zoom transform and its children (edges,
  then nodes), and the tooltip, which is a child of the \<^verbatim>\<open>svg\<close> element beside that
  group.
\<close>

record Scene_fs =
  group_transform :: ViewState
  group_edges :: "EdgeElem_fs option list"
  group_nodes :: "NodeElem_fs list"
  overlay_tooltip :: "Tooltip option"

definition render_fs ::
  "GraphNode list \<Rightarrow> GraphEdge list \<Rightarrow> string option \<Rightarrow> ViewState \<Rightarrow> Scene_fs" where
  "render_fs nodes edges hoveredNodeId vs =
     (let nodePositions = nodePositions_fs nodes
      in \<lparr>group_transform = vs,
          group_edges = map (renderEdge_fs nodePositions hoveredNodeId vs) edges,
          group_nodes = map (renderNode_fs hoveredNodeId vs) nodePositions,
          overlay_tooltip = tooltip_fs nodePositions hoveredNodeId\<rparr>)"

subsection \<open>Compact component\<close>

record EdgeElem_compact =
  ce_x1 :: real
  ce_y1 :: real
  ce_x2 :: real
  ce_y2 :: real
  ce_stroke :: string
  ce_strokeWidth :: real
  ce_strokeOpacity :: real

record NodeElem_compact =
  cn_opacity :: real
  cn_cx :: real
  cn_cy :: real
  cn_ring_r :: real
  cn_r :: real
  cn_fill :: string
  cn_stroke :: string
  cn_strokeWidth :: real

definition renderEdge_compact ::
  "PositionedNode list \<Rightarrow> string option \<Rightarrow> GraphEdge \<Rightarrow> EdgeElem_compact option" where
  "renderEdge_compact nodePositions hoveredNodeId edge =
     (case findNode nodePositions (edge_from edge) of
        None \<Rightarrow> None
      | Some start \<Rightarrow>
         (case findNode nodePositions (edge_to edge) of
            None \<Rightarrow> None
          | Some end \<Rightarrow>
             let connected = isConnectedToHover hoveredNodeId edge in
             Some \<lparr>ce_x1 = at_x start, ce_y1 = at_y start,
                   ce_x2 = at_x end, ce_y2 = at_y end,
                   ce_stroke = (if connected then ''#22d3ee'' else ''url(#edgeGradient)''),
                   ce_strokeWidth = (if connected then 2 else 1),
                   ce_strokeOpacity = (if truthy hoveredNodeId \<and> \<not> connected then 0.1 else 1)\<rparr>))"

definition renderNode_compact :: "string option \<Rightarrow> PositionedNode \<Rightarrow> NodeElem_compact" where
  "renderNode_compact hoveredNodeId node =
     (let hovered = isHovered hoveredNodeId node;
          dimmed = isDimmed hoveredNodeId node
      in \<lparr>cn_opacity = (if dimmed then 0.2 else 1),
          cn_cx = at_x node, cn_cy = at_y node,
          cn_ring_r = (if hovered then 16 else 0),
          cn_r = (if hovered then 10 else 6),
          cn_fill = (if hovered then ''#fff'' else ''#0f172a''),
          cn_stroke = getNodeColor_compact (node_type node),
          cn_strokeWidth = (if hovered then 0 else 2)\<rparr>)"

text \<open>
  The tooltip of the compact component: translated to the hovered node, 20 units
  above it, with one text line, the label (cut to 14 characters and \<^verbatim>\<open>..\<close> when it
  is longer than 15).
\<close>

definition tooltip_compact :: "PositionedNode list \<Rightarrow> string option \<Rightarrow> Tooltip option" where
  "tooltip_compact nodePositions hoveredNodeId =
     (case activeNode nodePositions hoveredNodeId of
        None \<Rightarrow> None
      | Some node \<Rightarrow>
          Some \<lparr>tt_x = at_x node, tt_y = at_y node - 20,
                tt_stroke = getNodeColor_compact (node_type node),
                tt_texts = [if length (node_label node) > 15
                            then take 14 (node_label node) @ ''..''
                            else node_label node]\<rparr>)"

record Scene_compact =
  svg_edges :: "EdgeElem_compact option list"
  svg_nodes :: "NodeElem_compact list"
  svg_tooltip :: "Tooltip option"

definition render_compact ::
  "GraphNode list \<Rightarrow> GraphEdge list \<Rightarrow> string option \<Rightarrow> Scene_compact" where
  "render_compact nodes edges hoveredNodeId =
     (let nodePositions = nodePositions_compact nodes
      in \<lparr>svg_edges = map (renderEdge_compact nodePositions hoveredNodeId) edges,
          svg_nodes = map (renderNode_compact hoveredNodeId) nodePositions,
          svg_tooltip = tooltip_compact nodePositions hoveredNodeId\<rparr>)"

section \<open>Theorems\<close>

subsection \<open>ColorPolicy\<close>

text \<open>
  C10. The two colour functions agree on the four recognised tags (entity is
  \<^verbatim>\<open>#06b6d4\<close>, action \<^verbatim>\<open>#10b981\<close>, risk \<^verbatim>\<open>#ef4444\<close>, outcome \<^verbatim>\<open>#f59e0b\<close>); on every
  other string the compact function returns \<^verbatim>\<open>#94a3b8\<close> and the full-screen function
  returns \<^verbatim>\<open>#64748b\<close>, so the two functions are not extensionally equal.
\<close>

theorem getNodeColor_agree_and_differ:
  "getNodeColor_compact ''entity'' = ''#06b6d4'' \<and> getNodeColor_fs ''entity'' = ''#06b6d4''
   \<and> getNodeColor_compact ''action'' = ''#10b981'' \<and> getNodeColor_fs ''action'' = ''#10b981''
   \<and> getNodeColor_compact ''risk'' = ''#ef4444'' \<and> getNodeColor_fs ''risk'' = ''#ef4444''
   \<and> getNodeColor_compact ''outcome'' = ''#f59e0b'' \<and> getNodeColor_fs ''outcome'' = ''#f59e0b''
   \<and> (\<forall>t. t \<notin> {''entity'', ''action'', ''risk'', ''outcome''} \<longrightarrow>
          getNodeColor_compact t = ''#94a3b8'' \<and> getNodeColor_fs t = ''#64748b''
          \<and> getNodeColor_compact t \<noteq> getNodeColor_fs t)
   \<and> getNodeColor_compact \<noteq> getNodeColor_fs"
proof -
  have known: "getNodeColor_compact ''entity'' = ''#06b6d4'' \<and> getNodeColor_fs ''entity'' = ''#06b6d4''
   \<and> getNodeColor_compact ''action'' = ''#10b981'' \<and> getNodeColor_fs ''action'' = ''#10b981''
   \<and> getNodeColor_compact ''risk'' = ''#ef4444'' \<and> getNodeColor_fs ''risk'' = ''#ef4444''
   \<and> getNodeColor_compact ''outcome'' = ''#f59e0b'' \<and> getNodeColor_fs ''outcome'' = ''#f59e0b''"
    by (simp add: getNodeColor_compact_def getNodeColor_fs_def)
  have other: "\<forall>t. t \<notin> {''entity'', ''action'', ''risk'', ''outcome''} \<longrightarrow>
          getNodeColor_compact t = ''#94a3b8'' \<and> getNodeColor_fs t = ''#64748b''
          \<and> getNodeColor_compact t \<noteq> getNodeColor_fs t"
    by (simp add: getNodeColor_compact_def getNodeColor_fs_def)
  have "getNodeColor_compact '''' \<noteq> getNodeColor_fs ''''"
    by (simp add: getNodeColor_compact_def getNodeColor_fs_def)
  then have neq: "getNodeColor_compact \<noteq> getNodeColor_fs"
    by metis
  from known other neq show ?thesis by blast
qed

theorem getNodeColor_agree_and_differ_witness:
  "''widget'' \<notin> {''entity'', ''action'', ''risk'', ''outcome''}
   \<and> getNodeColor_compact ''widget'' = ''#94a3b8'' \<and> getNodeColor_fs ''widget'' = ''#64748b''"
  using getNodeColor_agree_and_differ by simp


subsection \<open>ViewportController\<close>

lemma applyOp_scale_bounds:
  assumes "0.2 \<le> view_scale (viewState s)" and "view_scale (viewState s) \<le> 4"
  shows "0.2 \<le> view_scale (viewState (applyOp ev s)) \<and> view_scale (viewState (applyOp ev s)) \<le> 4"
  using assms
  by (cases ev)
     (auto simp: handleWheel_def handleMouseDown_def handleMouseMove_def handleMouseUp_def
                 resetView_def zoomIn_def zoomOut_def Let_def)

lemma runOps_scale_bounds:
  assumes "0.2 \<le> view_scale (viewState s)" and "view_scale (viewState s) \<le> 4"
  shows "0.2 \<le> view_scale (viewState (runOps evs s)) \<and> view_scale (viewState (runOps evs s)) \<le> 4"
  using assms
proof (induction evs arbitrary: s)
  case Nil
  then show ?case by simp
next
  case (Cons ev evs)
  from applyOp_scale_bounds [OF Cons.prems] Cons.IH show ?case by simp
qed

text \<open>
  C2. Starting from the initial viewport state, after every sequence of viewport
  operations (wheel events with any \<^verbatim>\<open>deltaY\<close>, zoom in, zoom out, reset view, and
  the mouse events as well) the scale lies in the interval from 0.2 to 4. Every prefix
  of a sequence is a sequence, so the bound holds after each operation.
\<close>

theorem zoom_clamp:
  "0.2 \<le> view_scale (viewState (runOps evs initialViewport))
   \<and> view_scale (viewState (runOps evs initialViewport)) \<le> 4"
  by (rule runOps_scale_bounds) (simp_all add: initialViewport_def)


text \<open>
  The claim that every viewport operation is idempotent fails at the first zoom step:
  from the initial state, zooming in twice gives scale 1.4, zooming in once gives 1.2.
\<close>

theorem zoomIn_not_idempotent:
  "applyOp ZoomIn (applyOp ZoomIn initialViewport) \<noteq> applyOp ZoomIn initialViewport"
proof
  assume "applyOp ZoomIn (applyOp ZoomIn initialViewport) = applyOp ZoomIn initialViewport"
  then have "view_scale (viewState (applyOp ZoomIn (applyOp ZoomIn initialViewport)))
             = view_scale (viewState (applyOp ZoomIn initialViewport))"
    by simp
  then show False
    by (simp add: zoomIn_def initialViewport_def)
qed

lemma zoomIn_twice:
  "(zoomIn (zoomIn s) = zoomIn s) = (3.8 \<le> view_scale (viewState s))"
proof
  assume "zoomIn (zoomIn s) = zoomIn s"
  then have "view_scale (viewState (zoomIn (zoomIn s))) = view_scale (viewState (zoomIn s))"
    by simp
  then show "3.8 \<le> view_scale (viewState s)"
    by (simp add: zoomIn_def min_def split: if_splits)
next
  assume "3.8 \<le> view_scale (viewState s)"
  then show "zoomIn (zoomIn s) = zoomIn s"
    by (simp add: zoomIn_def min_def)
qed

lemma zoomOut_twice:
  "(zoomOut (zoomOut s) = zoomOut s) = (view_scale (viewState s) \<le> 0.4)"
proof
  assume "zoomOut (zoomOut s) = zoomOut s"
  then have "view_scale (viewState (zoomOut (zoomOut s))) = view_scale (viewState (zoomOut s))"
    by simp
  then show "view_scale (viewState s) \<le> 0.4"
    by (simp add: zoomOut_def max_def split: if_splits)
next
  assume "view_scale (viewState s) \<le> 0.4"
  then show "zoomOut (zoomOut s) = zoomOut s"
    by (simp add: zoomOut_def max_def)
qed

lemma handleWheel_twice:
  "(handleWheel d (handleWheel d s) = handleWheel d s)
   = (d = 0 \<or> (d < 0 \<and> 4 \<le> view_scale (viewState s) - d * 0.001)
            \<or> (0 < d \<and> view_scale (viewState s) - d * 0.001 \<le> 0.2))"
proof
  assume "handleWheel d (handleWheel d s) = handleWheel d s"
  then have "view_scale (viewState (handleWheel d (handleWheel d s)))
             = view_scale (viewState (handleWheel d s))"
    by simp
  then show "d = 0 \<or> (d < 0 \<and> 4 \<le> view_scale (viewState s) - d * 0.001)
            \<or> (0 < d \<and> view_scale (viewState s) - d * 0.001 \<le> 0.2)"
    by (simp add: handleWheel_def Let_def min_def max_def split: if_splits)
next
  assume "d = 0 \<or> (d < 0 \<and> 4 \<le> view_scale (viewState s) - d * 0.001)
            \<or> (0 < d \<and> view_scale (viewState s) - d * 0.001 \<le> 0.2)"
  then show "handleWheel d (handleWheel d s) = handleWheel d s"
    by (auto simp: handleWheel_def Let_def min_def max_def)
qed

text \<open>
  C7, as amended. In every viewport state the mouse-down, mouse-move, mouse-up,
  canvas-leave and reset-view operations are idempotent under a repeated identical
  input. The zoom operations accumulate: zooming in twice equals zooming in once
  exactly when the scale was at least 3.8 (the first step reaches the upper bound 4),
  zooming out twice equals zooming out once exactly when the scale was at most 0.4,
  and a repeated wheel event with the same \<^verbatim>\<open>deltaY\<close> changes nothing more exactly
  when \<^verbatim>\<open>deltaY\<close> is 0 or the first event already reached the bound it moves towards.
\<close>

theorem viewport_idempotence:
  "applyOp (MouseDown cx cy) (applyOp (MouseDown cx cy) s) = applyOp (MouseDown cx cy) s
   \<and> applyOp (MouseMove cx cy) (applyOp (MouseMove cx cy) s) = applyOp (MouseMove cx cy) s
   \<and> applyOp MouseUp (applyOp MouseUp s) = applyOp MouseUp s
   \<and> applyOp MouseLeave (applyOp MouseLeave s) = applyOp MouseLeave s
   \<and> applyOp ResetView (applyOp ResetView s) = applyOp ResetView s
   \<and> ((applyOp ZoomIn (applyOp ZoomIn s) = applyOp ZoomIn s)
        = (3.8 \<le> view_scale (viewState s)))
   \<and> ((applyOp ZoomOut (applyOp ZoomOut s) = applyOp ZoomOut s)
        = (view_scale (viewState s) \<le> 0.4))
   \<and> ((applyOp (Wheel d) (applyOp (Wheel d) s) = applyOp (Wheel d) s)
        = (d = 0 \<or> (d < 0 \<and> 4 \<le> view_scale (viewState s) - d * 0.001)
                 \<or> (0 < d \<and> view_scale (viewState s) - d * 0.001 \<le> 0.2)))"
proof -
  have "handleMouseMove cx cy (handleMouseMove cx cy s) = handleMouseMove cx cy s"
    by (simp add: handleMouseMove_def Let_def)
  then show ?thesis
    by (simp add: handleMouseDown_def handleMouseUp_def resetView_def
                  zoomIn_twice zoomOut_twice handleWheel_twice)
qed

subsection \<open>InteractionState\<close>

text \<open>
  The claim that a leave event for a node other than the hovered one leaves the hover
  state unchanged fails: with node \<^verbatim>\<open>a\<close> hovered, a leave event of node \<^verbatim>\<open>b\<close>
  clears the hover state.
\<close>

theorem stale_leave_clears_hover:
  "onMouseLeave \<lparr>node_id = ''b'', node_label = ''B'', node_type = ''action''\<rparr> (Some ''a'')
   \<noteq> Some ''a''"
  by (simp add: onMouseLeave_def)

text \<open>
  C8, as amended. For every hover state and every node, the node-leave handler sets
  \<^verbatim>\<open>hoveredNodeId\<close> to null, whether or not the leaving node is the hovered one; the
  node-enter handler sets it to the id of the entered node.
\<close>

theorem leave_clears_hover:
  "onMouseLeave node hoveredNodeId = None \<and> onMouseEnter node hoveredNodeId = Some (node_id node)"
  by (simp add: onMouseLeave_def onMouseEnter_def)


subsection \<open>LayoutEngine: the distribution rule\<close>

lemma forEach_set_other:
  assumes "k \<notin> node_id ` set lst"
  shows "forEach (\<lambda>node i m. m(node_id node \<mapsto> g i)) lst i0 m k = m k"
  using assms by (induction lst arbitrary: i0 m) auto

lemma forEach_set_at:
  assumes "j < length lst"
    and "\<forall>j'. j < j' \<and> j' < length lst \<longrightarrow> node_id (lst ! j') \<noteq> node_id (lst ! j)"
  shows "forEach (\<lambda>node i m. m(node_id node \<mapsto> g i)) lst i0 m (node_id (lst ! j))
         = Some (g (i0 + j))"
  using assms
proof (induction lst arbitrary: i0 m j)
  case Nil
  then show ?case by simp
next
  case (Cons a as)
  show ?case
  proof (cases j)
    case 0
    have "node_id a \<notin> node_id ` set as"
    proof
      assume "node_id a \<in> node_id ` set as"
      then obtain b where "b \<in> set as" and eq: "node_id b = node_id a" by auto
      then obtain q where "q < length as" and "as ! q = b"
        by (auto simp: in_set_conv_nth)
      with Cons.prems(2) [rule_format, of "Suc q"] 0 eq show False by simp
    qed
    then have "forEach (\<lambda>node i m. m(node_id node \<mapsto> g i)) as (Suc i0) (m(node_id a \<mapsto> g i0)) (node_id a)
               = (m(node_id a \<mapsto> g i0)) (node_id a)"
      by (rule forEach_set_other)
    with 0 show ?thesis by (simp del: fun_upd_apply) simp
  next
    case (Suc j')
    with Cons.prems have lt: "j' < length as" by simp
    have later: "\<forall>q. j' < q \<and> q < length as \<longrightarrow> node_id (as ! q) \<noteq> node_id (as ! j')"
    proof (intro allI impI)
      fix q assume "j' < q \<and> q < length as"
      with Cons.prems(2) [rule_format, of "Suc q"] Suc
      show "node_id (as ! q) \<noteq> node_id (as ! j')" by simp
    qed
    from Cons.IH [OF lt later] Suc show ?thesis by simp
  qed
qed

lemma distribute_fs_other:
  assumes "k \<notin> node_id ` set lst"
  shows "distribute_fs lst rx ry a m k = m k"
  using assms by (simp add: distribute_fs_def Let_def forEach_set_other)

lemma distribute_compact_other:
  assumes "k \<notin> node_id ` set lst"
  shows "distribute_compact lst r a m k = m k"
  using assms by (simp add: distribute_compact_def Let_def forEach_set_other)

lemma distribute_fs_at:
  assumes "i < length lst"
    and "\<forall>j. i < j \<and> j < length lst \<longrightarrow> node_id (lst ! j) \<noteq> node_id (lst ! i)"
  shows "distribute_fs lst rx ry a m (node_id (lst ! i))
         = Some \<lparr>pos_x = cx_fs + rx * cos (a + real i * (2 * pi / real (length lst)) - pi / 2),
                 pos_y = cy_fs + ry * sin (a + real i * (2 * pi / real (length lst)) - pi / 2)\<rparr>"
proof -
  from assms(1) have "length lst \<noteq> 0" by auto
  then show ?thesis
    using forEach_set_at [OF assms, of "\<lambda>i. \<lparr>pos_x = cx_fs + rx * cos (a + real i * (2 * pi / real (length lst)) - pi / 2),
                 pos_y = cy_fs + ry * sin (a + real i * (2 * pi / real (length lst)) - pi / 2)\<rparr>" 0 m]
    by (simp add: distribute_fs_def Let_def)
qed

lemma distribute_compact_at:
  assumes "i < length lst"
    and "\<forall>j. i < j \<and> j < length lst \<longrightarrow> node_id (lst ! j) \<noteq> node_id (lst ! i)"
  shows "distribute_compact lst r a m (node_id (lst ! i))
         = Some \<lparr>pos_x = cx_compact + r * cos (a + real i * (2 * pi / real (length lst)) - pi / 2),
                 pos_y = cy_compact + r * sin (a + real i * (2 * pi / real (length lst)) - pi / 2)\<rparr>"
proof -
  from assms(1) have "length lst \<noteq> 0" by auto
  then show ?thesis
    using forEach_set_at [OF assms, of "\<lambda>i. \<lparr>pos_x = cx_compact + r * cos (a + real i * (2 * pi / real (length lst)) - pi / 2),
                 pos_y = cy_compact + r * sin (a + real i * (2 * pi / real (length lst)) - pi / 2)\<rparr>" 0 m]
    by (simp add: distribute_compact_def Let_def)
qed


lemma distinct_later:
  assumes "distinct (map node_id lst)" and "i < length lst"
  shows "\<forall>j. i < j \<and> j < length lst \<longrightarrow> node_id (lst ! j) \<noteq> node_id (lst ! i)"
proof (intro allI impI)
  fix j assume j: "i < j \<and> j < length lst"
  then have lj: "j < length (map node_id lst)" and li: "i < length (map node_id lst)"
    using assms(2) by simp_all
  from nth_eq_iff_index_eq [OF assms(1) lj li] j
  have "map node_id lst ! j \<noteq> map node_id lst ! i" by simp
  with j assms(2) show "node_id (lst ! j) \<noteq> node_id (lst ! i)" by simp
qed

lemma ids_of_other_filter:
  assumes d: "distinct (map node_id nodes)"
    and a: "a \<in> set nodes" and na: "\<not> Q a"
  shows "node_id a \<notin> node_id ` set (filter Q nodes)"
proof
  assume "node_id a \<in> node_id ` set (filter Q nodes)"
  then obtain b where b1: "b \<in> set nodes" and b2: "Q b" and eq: "node_id b = node_id a"
    by auto
  from d have "inj_on node_id (set nodes)" by (simp add: distinct_map)
  with a b1 eq have "b = a" by (simp add: inj_on_def)
  with b2 na show False by simp
qed

lemma not_in_actions:
  assumes "distinct (map node_id nodes)" and "a \<in> set nodes" and "node_type a \<noteq> ''action''"
  shows "node_id a \<notin> node_id ` set (actions nodes)"
  using ids_of_other_filter [of nodes a "\<lambda>n. node_type n = ''action''"] assms
  by (simp add: actions_def)

lemma not_in_risks:
  assumes "distinct (map node_id nodes)" and "a \<in> set nodes" and "node_type a \<noteq> ''risk''"
  shows "node_id a \<notin> node_id ` set (risks nodes)"
  using ids_of_other_filter [of nodes a "\<lambda>n. node_type n = ''risk''"] assms
  by (simp add: risks_def)

lemma not_in_outcomes:
  assumes "distinct (map node_id nodes)" and "a \<in> set nodes" and "node_type a \<noteq> ''outcome''"
  shows "node_id a \<notin> node_id ` set (outcomes nodes)"
  using ids_of_other_filter [of nodes a "\<lambda>n. node_type n = ''outcome''"] assms
  by (simp add: outcomes_def)

lemma not_in_results:
  assumes "distinct (map node_id nodes)" and "a \<in> set nodes"
    and "node_type a \<noteq> ''risk''" and "node_type a \<noteq> ''outcome''"
  shows "node_id a \<notin> node_id ` set (results nodes)"
  using ids_of_other_filter [of nodes a "\<lambda>n. node_type n \<in> set [''risk'', ''outcome'']"] assms
  by (simp add: results_def)

lemma not_in_others:
  assumes "distinct (map node_id nodes)" and "a \<in> set nodes"
    and "node_type a \<in> {''entity'', ''action'', ''risk'', ''outcome''}"
  shows "node_id a \<notin> node_id ` set (others nodes)"
  using ids_of_other_filter
          [of nodes a "\<lambda>n. \<not> node_type n \<in> set [''entity'', ''action'', ''risk'', ''outcome'']"] assms
  by (simp add: others_def)

lemma distinct_tier2_fs:
  assumes d: "distinct (map node_id nodes)"
  shows "distinct (map node_id (tier2_fs nodes))"
proof -
  have "node_id ` set (results nodes) \<inter> node_id ` set (others nodes) = {}"
  proof (rule ccontr)
    assume "node_id ` set (results nodes) \<inter> node_id ` set (others nodes) \<noteq> {}"
    then obtain a where a: "a \<in> set (results nodes)" and m: "node_id a \<in> node_id ` set (others nodes)"
      by auto
    from a have "a \<in> set nodes"
      and "node_type a \<in> {''entity'', ''action'', ''risk'', ''outcome''}"
      by (auto simp: results_def)
    from not_in_others [OF d this] m show False by simp
  qed
  with d show ?thesis
    by (simp add: tier2_fs_def results_def others_def distinct_map_filter)
qed

lemma distinct_tier2_compact:
  assumes d: "distinct (map node_id nodes)"
  shows "distinct (map node_id (tier2_compact nodes))"
proof -
  have ro: "node_id ` set (risks nodes) \<inter> node_id ` set (outcomes nodes) = {}"
  proof (rule ccontr)
    assume "node_id ` set (risks nodes) \<inter> node_id ` set (outcomes nodes) \<noteq> {}"
    then obtain a where a: "a \<in> set (risks nodes)" and m: "node_id a \<in> node_id ` set (outcomes nodes)"
      by auto
    from a have "a \<in> set nodes" and "node_type a \<noteq> ''outcome''"
      by (auto simp: risks_def)
    from not_in_outcomes [OF d this] m show False by simp
  qed
  have rt: "node_id ` set (risks nodes) \<inter> node_id ` set (others nodes) = {}"
  proof (rule ccontr)
    assume "node_id ` set (risks nodes) \<inter> node_id ` set (others nodes) \<noteq> {}"
    then obtain a where a: "a \<in> set (risks nodes)" and m: "node_id a \<in> node_id ` set (others nodes)"
      by auto
    from a have "a \<in> set nodes"
      and "node_type a \<in> {''entity'', ''action'', ''risk'', ''outcome''}"
      by (auto simp: risks_def)
    from not_in_others [OF d this] m show False by simp
  qed
  have ot: "node_id ` set (outcomes nodes) \<inter> node_id ` set (others nodes) = {}"
  proof (rule ccontr)
    assume "node_id ` set (outcomes nodes) \<inter> node_id ` set (others nodes) \<noteq> {}"
    then obtain a where a: "a \<in> set (outcomes nodes)" and m: "node_id a \<in> node_id ` set (others nodes)"
      by auto
    from a have "a \<in> set nodes"
      and "node_type a \<in> {''entity'', ''action'', ''risk'', ''outcome''}"
      by (auto simp: outcomes_def)
    from not_in_others [OF d this] m show False by simp
  qed
  have dr: "distinct (map node_id (risks nodes))"
    and do: "distinct (map node_id (outcomes nodes))"
    and dt: "distinct (map node_id (others nodes))"
    using d by (simp_all add: risks_def outcomes_def others_def distinct_map_filter)
  from dr do dt ro rt ot show ?thesis
    by (simp add: tier2_compact_def image_Un Int_Un_distrib)
qed

lemma entity_or_action_not_in_tier2:
  assumes d: "distinct (map node_id nodes)"
    and a: "a \<in> set nodes"
    and t: "node_type a = ''entity'' \<or> node_type a = ''action''"
  shows "node_id a \<notin> node_id ` set (tier2_fs nodes)"
    and "node_id a \<notin> node_id ` set (tier2_compact nodes)"
proof -
  from t have ri: "node_type a \<noteq> ''risk''" and ou: "node_type a \<noteq> ''outcome''" by auto
  from t have ot: "node_type a \<in> {''entity'', ''action'', ''risk'', ''outcome''}" by auto
  from not_in_results [OF d a ri ou] not_in_others [OF d a ot]
  show "node_id a \<notin> node_id ` set (tier2_fs nodes)"
    by (simp add: tier2_fs_def image_Un)
  from not_in_risks [OF d a ri] not_in_outcomes [OF d a ou] not_in_others [OF d a ot]
  show "node_id a \<notin> node_id ` set (tier2_compact nodes)"
    by (simp add: tier2_compact_def image_Un)
qed

lemma layout_tier2:
  assumes d: "distinct (map node_id nodes)"
  shows "i < length (tier2_fs nodes) \<Longrightarrow>
           posMap_fs nodes (node_id (tier2_fs nodes ! i))
           = Some (ring_slot cx_fs cy_fs 320 240 1 (length (tier2_fs nodes)) i)"
    and "i < length (tier2_compact nodes) \<Longrightarrow>
           posMap_compact nodes (node_id (tier2_compact nodes ! i))
           = Some (ring_slot cx_compact cy_compact 130 130 1 (length (tier2_compact nodes)) i)"
proof -
  assume i: "i < length (tier2_fs nodes)"
  from distribute_fs_at [OF i distinct_later [OF distinct_tier2_fs [OF d] i]]
  show "posMap_fs nodes (node_id (tier2_fs nodes ! i))
           = Some (ring_slot cx_fs cy_fs 320 240 1 (length (tier2_fs nodes)) i)"
    by (simp add: posMap_fs_def ring_slot_def Let_def)
next
  assume i: "i < length (tier2_compact nodes)"
  from distribute_compact_at [OF i distinct_later [OF distinct_tier2_compact [OF d] i]]
  show "posMap_compact nodes (node_id (tier2_compact nodes ! i))
           = Some (ring_slot cx_compact cy_compact 130 130 1 (length (tier2_compact nodes)) i)"
    by (simp add: posMap_compact_def ring_slot_def Let_def)
qed

lemma layout_actions:
  assumes d: "distinct (map node_id nodes)" and i: "i < length (actions nodes)"
  shows "posMap_fs nodes (node_id (actions nodes ! i))
           = Some (ring_slot cx_fs cy_fs 220 160 0.5 (length (actions nodes)) i)"
    and "posMap_compact nodes (node_id (actions nodes ! i))
           = Some (ring_slot cx_compact cy_compact 90 90 0.5 (length (actions nodes)) i)"
proof -
  let ?a = "actions nodes ! i"
  from i have "?a \<in> set (actions nodes)" by simp
  then have mem: "?a \<in> set nodes" and ty: "node_type ?a = ''entity'' \<or> node_type ?a = ''action''"
    by (simp_all add: actions_def)
  note out = entity_or_action_not_in_tier2 [OF d mem ty]
  have da: "distinct (map node_id (actions nodes))"
    using d by (simp add: actions_def distinct_map_filter)
  note later = distinct_later [OF da i]
  have "posMap_fs nodes (node_id ?a)
        = distribute_fs (actions nodes) 220 160 0.5
            (if length (entities nodes) = 1
             then Map.empty(node_id (entities nodes ! 0) \<mapsto> \<lparr>pos_x = cx_fs, pos_y = cy_fs\<rparr>)
             else distribute_fs (entities nodes) 100 80 0 Map.empty) (node_id ?a)"
    unfolding posMap_fs_def Let_def by (rule distribute_fs_other [OF out(1)])
  also have "\<dots> = Some (ring_slot cx_fs cy_fs 220 160 0.5 (length (actions nodes)) i)"
    unfolding ring_slot_def Let_def by (rule distribute_fs_at [OF i later])
  finally show "posMap_fs nodes (node_id ?a)
           = Some (ring_slot cx_fs cy_fs 220 160 0.5 (length (actions nodes)) i)" .
  have "posMap_compact nodes (node_id ?a)
        = distribute_compact (actions nodes) 90 0.5
            (if length (entities nodes) = 1
             then Map.empty(node_id (entities nodes ! 0) \<mapsto> \<lparr>pos_x = cx_compact, pos_y = cy_compact\<rparr>)
             else distribute_compact (entities nodes) 40 0 Map.empty) (node_id ?a)"
    unfolding posMap_compact_def Let_def by (rule distribute_compact_other [OF out(2)])
  also have "\<dots> = Some (ring_slot cx_compact cy_compact 90 90 0.5 (length (actions nodes)) i)"
    unfolding ring_slot_def Let_def by (rule distribute_compact_at [OF i later])
  finally show "posMap_compact nodes (node_id ?a)
           = Some (ring_slot cx_compact cy_compact 90 90 0.5 (length (actions nodes)) i)" .
qed

lemma layout_entities:
  assumes d: "distinct (map node_id nodes)" and i: "i < length (entities nodes)"
    and many: "length (entities nodes) \<noteq> 1"
  shows "posMap_fs nodes (node_id (entities nodes ! i))
           = Some (ring_slot cx_fs cy_fs 100 80 0 (length (entities nodes)) i)"
    and "posMap_compact nodes (node_id (entities nodes ! i))
           = Some (ring_slot cx_compact cy_compact 40 40 0 (length (entities nodes)) i)"
proof -
  let ?e = "entities nodes ! i"
  from i have "?e \<in> set (entities nodes)" by simp
  then have mem: "?e \<in> set nodes" and ent: "node_type ?e = ''entity''"
    by (simp_all add: entities_def)
  from ent have ty: "node_type ?e = ''entity'' \<or> node_type ?e = ''action''" by simp
  note out = entity_or_action_not_in_tier2 [OF d mem ty]
  from ent have "node_type ?e \<noteq> ''action''" by simp
  from not_in_actions [OF d mem this]
  have act: "node_id ?e \<notin> node_id ` set (actions nodes)" .
  have de: "distinct (map node_id (entities nodes))"
    using d by (simp add: entities_def distinct_map_filter)
  note later = distinct_later [OF de i]
  have "posMap_fs nodes (node_id ?e)
        = distribute_fs (actions nodes) 220 160 0.5
            (distribute_fs (entities nodes) 100 80 0 Map.empty) (node_id ?e)"
    unfolding posMap_fs_def Let_def using many
    by (simp only: distribute_fs_other [OF out(1)] if_False)
  also have "\<dots> = distribute_fs (entities nodes) 100 80 0 Map.empty (node_id ?e)"
    by (rule distribute_fs_other [OF act])
  also have "\<dots> = Some (ring_slot cx_fs cy_fs 100 80 0 (length (entities nodes)) i)"
    unfolding ring_slot_def Let_def by (rule distribute_fs_at [OF i later])
  finally show "posMap_fs nodes (node_id ?e)
           = Some (ring_slot cx_fs cy_fs 100 80 0 (length (entities nodes)) i)" .
  have "posMap_compact nodes (node_id ?e)
        = distribute_compact (actions nodes) 90 0.5
            (distribute_compact (entities nodes) 40 0 Map.empty) (node_id ?e)"
    unfolding posMap_compact_def Let_def using many
    by (simp only: distribute_compact_other [OF out(2)] if_False)
  also have "\<dots> = distribute_compact (entities nodes) 40 0 Map.empty (node_id ?e)"
    by (rule distribute_compact_other [OF act])
  also have "\<dots> = Some (ring_slot cx_compact cy_compact 40 40 0 (length (entities nodes)) i)"
    unfolding ring_slot_def Let_def by (rule distribute_compact_at [OF i later])
  finally show "posMap_compact nodes (node_id ?e)
           = Some (ring_slot cx_compact cy_compact 40 40 0 (length (entities nodes)) i)" .
qed

lemma nodePositions_fs_nth:
  assumes "k < length nodes" and "posMap_fs nodes (node_id (nodes ! k)) = Some p"
  shows "\<lparr>pos_x = at_x (nodePositions_fs nodes ! k), pos_y = at_y (nodePositions_fs nodes ! k)\<rparr> = p"
  using assms by (simp add: nodePositions_fs_def)

lemma nodePositions_compact_nth:
  assumes "k < length nodes" and "posMap_compact nodes (node_id (nodes ! k)) = Some p"
  shows "\<lparr>pos_x = at_x (nodePositions_compact nodes ! k),
          pos_y = at_y (nodePositions_compact nodes ! k)\<rparr> = p"
  using assms by (simp add: nodePositions_compact_def)

lemma layout_placed:
  assumes d: "distinct (map node_id nodes)" and k: "k < length nodes"
  shows "length (entities nodes) \<noteq> 1 \<and> i < length (entities nodes) \<and> nodes ! k = entities nodes ! i
           \<longrightarrow> \<lparr>pos_x = at_x (nodePositions_fs nodes ! k), pos_y = at_y (nodePositions_fs nodes ! k)\<rparr>
                 = ring_slot cx_fs cy_fs 100 80 0 (length (entities nodes)) i
               \<and> \<lparr>pos_x = at_x (nodePositions_compact nodes ! k),
                  pos_y = at_y (nodePositions_compact nodes ! k)\<rparr>
                 = ring_slot cx_compact cy_compact 40 40 0 (length (entities nodes)) i"
    and "i < length (actions nodes) \<and> nodes ! k = actions nodes ! i
           \<longrightarrow> \<lparr>pos_x = at_x (nodePositions_fs nodes ! k), pos_y = at_y (nodePositions_fs nodes ! k)\<rparr>
                 = ring_slot cx_fs cy_fs 220 160 0.5 (length (actions nodes)) i
               \<and> \<lparr>pos_x = at_x (nodePositions_compact nodes ! k),
                  pos_y = at_y (nodePositions_compact nodes ! k)\<rparr>
                 = ring_slot cx_compact cy_compact 90 90 0.5 (length (actions nodes)) i"
    and "i < length (tier2_fs nodes) \<and> nodes ! k = tier2_fs nodes ! i
           \<longrightarrow> \<lparr>pos_x = at_x (nodePositions_fs nodes ! k), pos_y = at_y (nodePositions_fs nodes ! k)\<rparr>
                 = ring_slot cx_fs cy_fs 320 240 1 (length (tier2_fs nodes)) i"
    and "i < length (tier2_compact nodes) \<and> nodes ! k = tier2_compact nodes ! i
           \<longrightarrow> \<lparr>pos_x = at_x (nodePositions_compact nodes ! k),
                  pos_y = at_y (nodePositions_compact nodes ! k)\<rparr>
                 = ring_slot cx_compact cy_compact 130 130 1 (length (tier2_compact nodes)) i"
proof -
  show "length (entities nodes) \<noteq> 1 \<and> i < length (entities nodes) \<and> nodes ! k = entities nodes ! i
           \<longrightarrow> \<lparr>pos_x = at_x (nodePositions_fs nodes ! k), pos_y = at_y (nodePositions_fs nodes ! k)\<rparr>
                 = ring_slot cx_fs cy_fs 100 80 0 (length (entities nodes)) i
               \<and> \<lparr>pos_x = at_x (nodePositions_compact nodes ! k),
                  pos_y = at_y (nodePositions_compact nodes ! k)\<rparr>
                 = ring_slot cx_compact cy_compact 40 40 0 (length (entities nodes)) i"
  proof
    assume h: "length (entities nodes) \<noteq> 1 \<and> i < length (entities nodes) \<and> nodes ! k = entities nodes ! i"
    then have i: "i < length (entities nodes)" and many: "length (entities nodes) \<noteq> 1"
      and eq: "entities nodes ! i = nodes ! k" by simp_all
    from layout_entities [OF d i many]
    have "posMap_fs nodes (node_id (nodes ! k))
            = Some (ring_slot cx_fs cy_fs 100 80 0 (length (entities nodes)) i)"
      and "posMap_compact nodes (node_id (nodes ! k))
            = Some (ring_slot cx_compact cy_compact 40 40 0 (length (entities nodes)) i)"
      by (simp_all only: eq)
    with k show "\<lparr>pos_x = at_x (nodePositions_fs nodes ! k), pos_y = at_y (nodePositions_fs nodes ! k)\<rparr>
                 = ring_slot cx_fs cy_fs 100 80 0 (length (entities nodes)) i
               \<and> \<lparr>pos_x = at_x (nodePositions_compact nodes ! k),
                  pos_y = at_y (nodePositions_compact nodes ! k)\<rparr>
                 = ring_slot cx_compact cy_compact 40 40 0 (length (entities nodes)) i"
      by (simp only: nodePositions_fs_nth nodePositions_compact_nth simp_thms)
  qed
  show "i < length (actions nodes) \<and> nodes ! k = actions nodes ! i
           \<longrightarrow> \<lparr>pos_x = at_x (nodePositions_fs nodes ! k), pos_y = at_y (nodePositions_fs nodes ! k)\<rparr>
                 = ring_slot cx_fs cy_fs 220 160 0.5 (length (actions nodes)) i
               \<and> \<lparr>pos_x = at_x (nodePositions_compact nodes ! k),
                  pos_y = at_y (nodePositions_compact nodes ! k)\<rparr>
                 = ring_slot cx_compact cy_compact 90 90 0.5 (length (actions nodes)) i"
  proof
    assume h: "i < length (actions nodes) \<and> nodes ! k = actions nodes ! i"
    then have i: "i < length (actions nodes)" and eq: "actions nodes ! i = nodes ! k"
      by simp_all
    from layout_actions [OF d i]
    have "posMap_fs nodes (node_id (nodes ! k))
            = Some (ring_slot cx_fs cy_fs 220 160 0.5 (length (actions nodes)) i)"
      and "posMap_compact nodes (node_id (nodes ! k))
            = Some (ring_slot cx_compact cy_compact 90 90 0.5 (length (actions nodes)) i)"
      by (simp_all only: eq)
    with k show "\<lparr>pos_x = at_x (nodePositions_fs nodes ! k), pos_y = at_y (nodePositions_fs nodes ! k)\<rparr>
                 = ring_slot cx_fs cy_fs 220 160 0.5 (length (actions nodes)) i
               \<and> \<lparr>pos_x = at_x (nodePositions_compact nodes ! k),
                  pos_y = at_y (nodePositions_compact nodes ! k)\<rparr>
                 = ring_slot cx_compact cy_compact 90 90 0.5 (length (actions nodes)) i"
      by (simp only: nodePositions_fs_nth nodePositions_compact_nth simp_thms)
  qed
  show "i < length (tier2_fs nodes) \<and> nodes ! k = tier2_fs nodes ! i
           \<longrightarrow> \<lparr>pos_x = at_x (nodePositions_fs nodes ! k), pos_y = at_y (nodePositions_fs nodes ! k)\<rparr>
                 = ring_slot cx_fs cy_fs 320 240 1 (length (tier2_fs nodes)) i"
  proof
    assume h: "i < length (tier2_fs nodes) \<and> nodes ! k = tier2_fs nodes ! i"
    then have i: "i < length (tier2_fs nodes)" and eq: "tier2_fs nodes ! i = nodes ! k"
      by simp_all
    from layout_tier2(1) [OF d i]
    have "posMap_fs nodes (node_id (nodes ! k))
            = Some (ring_slot cx_fs cy_fs 320 240 1 (length (tier2_fs nodes)) i)"
      by (simp only: eq)
    with k show "\<lparr>pos_x = at_x (nodePositions_fs nodes ! k), pos_y = at_y (nodePositions_fs nodes ! k)\<rparr>
                 = ring_slot cx_fs cy_fs 320 240 1 (length (tier2_fs nodes)) i"
      by (rule nodePositions_fs_nth)
  qed
  show "i < length (tier2_compact nodes) \<and> nodes ! k = tier2_compact nodes ! i
           \<longrightarrow> \<lparr>pos_x = at_x (nodePositions_compact nodes ! k),
                  pos_y = at_y (nodePositions_compact nodes ! k)\<rparr>
                 = ring_slot cx_compact cy_compact 130 130 1 (length (tier2_compact nodes)) i"
  proof
    assume h: "i < length (tier2_compact nodes) \<and> nodes ! k = tier2_compact nodes ! i"
    then have i: "i < length (tier2_compact nodes)" and eq: "tier2_compact nodes ! i = nodes ! k"
      by simp_all
    from layout_tier2(2) [OF d i]
    have "posMap_compact nodes (node_id (nodes ! k))
            = Some (ring_slot cx_compact cy_compact 130 130 1 (length (tier2_compact nodes)) i)"
      by (simp only: eq)
    with k show "\<lparr>pos_x = at_x (nodePositions_compact nodes ! k),
                  pos_y = at_y (nodePositions_compact nodes ! k)\<rparr>
                 = ring_slot cx_compact cy_compact 130 130 1 (length (tier2_compact nodes)) i"
      by (rule nodePositions_compact_nth)
  qed
qed

lemma half_turn: "pi - pi / 2 = pi / 2"
  by simp

text \<open>
  The claim that the node at index \<open>i\<close> of every tier is placed at slot \<open>i\<close> fails when
  two nodes of a tier share an id: the position map has one entry per id, and the
  later node overwrites it. With two entity nodes of id \<^verbatim>\<open>a\<close>, the node at index 0 is
  drawn at slot 1, (400, 380) full-screen and (200, 190) compact, where the claim
  places it at slot 0, (400, 220) and (200, 110).
\<close>

theorem shared_id_takes_later_slot:
  "nodePositions_fs [\<lparr>node_id = ''a'', node_label = ''First'', node_type = ''entity''\<rparr>,
                     \<lparr>node_id = ''a'', node_label = ''Second'', node_type = ''entity''\<rparr>] ! 0
     = \<lparr>node_id = ''a'', node_label = ''First'', node_type = ''entity'', at_x = 400, at_y = 380\<rparr>
   \<and> cx_fs + 100 * cos (0 + real 0 * (2 * pi / real 2) - pi / 2) = 400
   \<and> cy_fs + 80 * sin (0 + real 0 * (2 * pi / real 2) - pi / 2) = 220
   \<and> nodePositions_compact [\<lparr>node_id = ''a'', node_label = ''First'', node_type = ''entity''\<rparr>,
                            \<lparr>node_id = ''a'', node_label = ''Second'', node_type = ''entity''\<rparr>] ! 0
     = \<lparr>node_id = ''a'', node_label = ''First'', node_type = ''entity'', at_x = 200, at_y = 190\<rparr>
   \<and> cx_compact + 40 * cos (0 + real 0 * (2 * pi / real 2) - pi / 2) = 200
   \<and> cy_compact + 40 * sin (0 + real 0 * (2 * pi / real 2) - pi / 2) = 110"
proof -
  let ?dup = "[\<lparr>node_id = ''a'', node_label = ''First'', node_type = ''entity''\<rparr>,
               \<lparr>node_id = ''a'', node_label = ''Second'', node_type = ''entity''\<rparr>]"
  have pf: "posMap_fs ?dup ''a'' = Some \<lparr>pos_x = 400, pos_y = 380\<rparr>"
    by (simp add: posMap_fs_def entities_def actions_def tier2_fs_def results_def
                  others_def distribute_fs_def Let_def half_turn
                  cx_fs_def cy_fs_def width_fs_def height_fs_def)
  have pc: "posMap_compact ?dup ''a'' = Some \<lparr>pos_x = 200, pos_y = 190\<rparr>"
    by (simp add: posMap_compact_def entities_def actions_def tier2_compact_def risks_def
                  outcomes_def others_def distribute_compact_def Let_def half_turn
                  cx_compact_def cy_compact_def width_compact_def height_compact_def)
  have slots: "cx_fs + 100 * cos (0 + real 0 * (2 * pi / real 2) - pi / 2) = 400
     \<and> cy_fs + 80 * sin (0 + real 0 * (2 * pi / real 2) - pi / 2) = 220
     \<and> cx_compact + 40 * cos (0 + real 0 * (2 * pi / real 2) - pi / 2) = 200
     \<and> cy_compact + 40 * sin (0 + real 0 * (2 * pi / real 2) - pi / 2) = 110"
    by (simp add: cx_fs_def cy_fs_def width_fs_def height_fs_def
                  cx_compact_def cy_compact_def width_compact_def height_compact_def)
  from pf pc slots show ?thesis
    by (simp add: nodePositions_fs_def nodePositions_compact_def)
qed

text \<open>
  C1, as amended. The distribution rule, in both components. \<^verbatim>\<open>distribute\<close> writes,
  for a tier of \<open>n \<ge> 1\<close> nodes with radius \<open>(rx, ry)\<close> (one radius \<open>r\<close> in the compact
  component) and phase \<open>theta0\<close>, the position at angle
  \<open>theta0 + i * (2 * pi / n) - pi / 2\<close>, that is
  \<open>(cx + rx * cos angle, cy + ry * sin angle)\<close>, under the id of the node at index
  \<open>i < n\<close>, and this is the entry of that id afterwards when no later node of the tier
  has the same id. A tier of no nodes leaves the position map as it was; the step
  \<open>2 * pi / n\<close> is not computed for it. In a node list with pairwise distinct ids, the
  layout so places node \<open>i\<close> of every tier that goes through \<^verbatim>\<open>distribute\<close>: the entity
  tier unless it has exactly one member (radius 100 by 80, compact 40, phase 0), the
  action tier (220 by 160, compact 90, phase 0.5) and the outer ring (320 by 240,
  compact 130, phase 1).
\<close>

theorem distribution_rule:
  "ring_slot cx cy rx ry theta0 n i
     = \<lparr>pos_x = cx + rx * cos (theta0 + real i * (2 * pi / real n) - pi / 2),
        pos_y = cy + ry * sin (theta0 + real i * (2 * pi / real n) - pi / 2)\<rparr>
   \<and> (i < length lst
        \<and> (\<forall>j. i < j \<and> j < length lst \<longrightarrow> node_id (lst ! j) \<noteq> node_id (lst ! i))
      \<longrightarrow> distribute_fs lst rx ry theta0 m (node_id (lst ! i))
            = Some (ring_slot cx_fs cy_fs rx ry theta0 (length lst) i)
          \<and> distribute_compact lst r theta0 m' (node_id (lst ! i))
            = Some (ring_slot cx_compact cy_compact r r theta0 (length lst) i))
   \<and> distribute_fs [] rx ry theta0 m = m
   \<and> distribute_compact [] r theta0 m' = m'
   \<and> (distinct (map node_id nodes) \<and> k < length nodes
      \<longrightarrow> (length (entities nodes) \<noteq> 1 \<and> i < length (entities nodes)
             \<and> nodes ! k = entities nodes ! i
           \<longrightarrow> \<lparr>pos_x = at_x (nodePositions_fs nodes ! k), pos_y = at_y (nodePositions_fs nodes ! k)\<rparr>
                 = ring_slot cx_fs cy_fs 100 80 0 (length (entities nodes)) i
               \<and> \<lparr>pos_x = at_x (nodePositions_compact nodes ! k),
                  pos_y = at_y (nodePositions_compact nodes ! k)\<rparr>
                 = ring_slot cx_compact cy_compact 40 40 0 (length (entities nodes)) i)
        \<and> (i < length (actions nodes) \<and> nodes ! k = actions nodes ! i
           \<longrightarrow> \<lparr>pos_x = at_x (nodePositions_fs nodes ! k), pos_y = at_y (nodePositions_fs nodes ! k)\<rparr>
                 = ring_slot cx_fs cy_fs 220 160 0.5 (length (actions nodes)) i
               \<and> \<lparr>pos_x = at_x (nodePositions_compact nodes ! k),
                  pos_y = at_y (nodePositions_compact nodes ! k)\<rparr>
                 = ring_slot cx_compact cy_compact 90 90 0.5 (length (actions nodes)) i)
        \<and> (i < length (tier2_fs nodes) \<and> nodes ! k = tier2_fs nodes ! i
           \<longrightarrow> \<lparr>pos_x = at_x (nodePositions_fs nodes ! k), pos_y = at_y (nodePositions_fs nodes ! k)\<rparr>
                 = ring_slot cx_fs cy_fs 320 240 1 (length (tier2_fs nodes)) i)
        \<and> (i < length (tier2_compact nodes) \<and> nodes ! k = tier2_compact nodes ! i
           \<longrightarrow> \<lparr>pos_x = at_x (nodePositions_compact nodes ! k),
                  pos_y = at_y (nodePositions_compact nodes ! k)\<rparr>
                 = ring_slot cx_compact cy_compact 130 130 1 (length (tier2_compact nodes)) i))"
proof -
  have slot: "ring_slot cx cy rx ry theta0 n i
     = \<lparr>pos_x = cx + rx * cos (theta0 + real i * (2 * pi / real n) - pi / 2),
        pos_y = cy + ry * sin (theta0 + real i * (2 * pi / real n) - pi / 2)\<rparr>"
    by (simp add: ring_slot_def Let_def)
  have dist: "i < length lst
        \<and> (\<forall>j. i < j \<and> j < length lst \<longrightarrow> node_id (lst ! j) \<noteq> node_id (lst ! i))
      \<longrightarrow> distribute_fs lst rx ry theta0 m (node_id (lst ! i))
            = Some (ring_slot cx_fs cy_fs rx ry theta0 (length lst) i)
          \<and> distribute_compact lst r theta0 m' (node_id (lst ! i))
            = Some (ring_slot cx_compact cy_compact r r theta0 (length lst) i)"
  proof
    assume "i < length lst
        \<and> (\<forall>j. i < j \<and> j < length lst \<longrightarrow> node_id (lst ! j) \<noteq> node_id (lst ! i))"
    then have i: "i < length lst"
      and later: "\<forall>j. i < j \<and> j < length lst \<longrightarrow> node_id (lst ! j) \<noteq> node_id (lst ! i)"
      by simp_all
    from distribute_fs_at [OF i later] distribute_compact_at [OF i later]
    show "distribute_fs lst rx ry theta0 m (node_id (lst ! i))
            = Some (ring_slot cx_fs cy_fs rx ry theta0 (length lst) i)
          \<and> distribute_compact lst r theta0 m' (node_id (lst ! i))
            = Some (ring_slot cx_compact cy_compact r r theta0 (length lst) i)"
      by (simp add: ring_slot_def Let_def)
  qed
  have e1: "distribute_fs [] rx ry theta0 m = m"
    by (simp add: distribute_fs_def)
  have e2: "distribute_compact [] r theta0 m' = m'"
    by (simp add: distribute_compact_def)
  from slot dist e1 e2 layout_placed [of nodes k i] show ?thesis
    by blast
qed

text \<open>
  Two action nodes with different ids: the second one is placed half a turn after the
  first, by \<^verbatim>\<open>distribute\<close> and in both layouts.
\<close>

theorem distribution_rule_witness:
  "distribute_fs [\<lparr>node_id = ''a'', node_label = ''A'', node_type = ''action''\<rparr>,
                  \<lparr>node_id = ''b'', node_label = ''B'', node_type = ''action''\<rparr>]
                 220 160 0.5 Map.empty ''b''
     = Some \<lparr>pos_x = cx_fs + 220 * cos (0.5 + real 1 * (2 * pi / real 2) - pi / 2),
             pos_y = cy_fs + 160 * sin (0.5 + real 1 * (2 * pi / real 2) - pi / 2)\<rparr>
   \<and> distribute_compact [\<lparr>node_id = ''a'', node_label = ''A'', node_type = ''action''\<rparr>,
                         \<lparr>node_id = ''b'', node_label = ''B'', node_type = ''action''\<rparr>]
                        90 0.5 Map.empty ''b''
     = Some \<lparr>pos_x = cx_compact + 90 * cos (0.5 + real 1 * (2 * pi / real 2) - pi / 2),
             pos_y = cy_compact + 90 * sin (0.5 + real 1 * (2 * pi / real 2) - pi / 2)\<rparr>
   \<and> nodePositions_fs [\<lparr>node_id = ''a'', node_label = ''A'', node_type = ''action''\<rparr>,
                       \<lparr>node_id = ''b'', node_label = ''B'', node_type = ''action''\<rparr>] ! 1
     = \<lparr>node_id = ''b'', node_label = ''B'', node_type = ''action'',
        at_x = cx_fs + 220 * cos (0.5 + real 1 * (2 * pi / real 2) - pi / 2),
        at_y = cy_fs + 160 * sin (0.5 + real 1 * (2 * pi / real 2) - pi / 2)\<rparr>
   \<and> nodePositions_compact [\<lparr>node_id = ''a'', node_label = ''A'', node_type = ''action''\<rparr>,
                            \<lparr>node_id = ''b'', node_label = ''B'', node_type = ''action''\<rparr>] ! 1
     = \<lparr>node_id = ''b'', node_label = ''B'', node_type = ''action'',
        at_x = cx_compact + 90 * cos (0.5 + real 1 * (2 * pi / real 2) - pi / 2),
        at_y = cy_compact + 90 * sin (0.5 + real 1 * (2 * pi / real 2) - pi / 2)\<rparr>"
proof -
  let ?a = "\<lparr>node_id = ''a'', node_label = ''A'', node_type = ''action''\<rparr>"
  let ?b = "\<lparr>node_id = ''b'', node_label = ''B'', node_type = ''action''\<rparr>"
  let ?lst = "[?a, ?b]"
  have h1: "1 < length ?lst
            \<and> (\<forall>j. 1 < j \<and> j < length ?lst \<longrightarrow> node_id (?lst ! j) \<noteq> node_id (?lst ! 1))"
    by simp
  have acts: "actions ?lst = ?lst" by (simp add: actions_def)
  have h2: "distinct (map node_id ?lst) \<and> 1 < length ?lst" by simp
  have h3: "1 < length (actions ?lst) \<and> ?lst ! 1 = actions ?lst ! 1"
    by (simp add: acts)
  note inst = distribution_rule [of 0 0 220 160 "0.5" 2 1 ?lst Map.empty 90 Map.empty ?lst 1]
  from inst h1 have d: "distribute_fs ?lst 220 160 0.5 Map.empty (node_id (?lst ! 1))
            = Some (ring_slot cx_fs cy_fs 220 160 0.5 (length ?lst) 1)
          \<and> distribute_compact ?lst 90 0.5 Map.empty (node_id (?lst ! 1))
            = Some (ring_slot cx_compact cy_compact 90 90 0.5 (length ?lst) 1)"
    by blast
  from inst h2 h3 have l: "\<lparr>pos_x = at_x (nodePositions_fs ?lst ! 1), pos_y = at_y (nodePositions_fs ?lst ! 1)\<rparr>
                 = ring_slot cx_fs cy_fs 220 160 0.5 (length (actions ?lst)) 1
               \<and> \<lparr>pos_x = at_x (nodePositions_compact ?lst ! 1),
                  pos_y = at_y (nodePositions_compact ?lst ! 1)\<rparr>
                 = ring_slot cx_compact cy_compact 90 90 0.5 (length (actions ?lst)) 1"
    by blast
  have n: "node_id (nodePositions_fs ?lst ! 1) = ''b'' \<and> node_label (nodePositions_fs ?lst ! 1) = ''B''
           \<and> node_type (nodePositions_fs ?lst ! 1) = ''action''
           \<and> node_id (nodePositions_compact ?lst ! 1) = ''b''
           \<and> node_label (nodePositions_compact ?lst ! 1) = ''B''
           \<and> node_type (nodePositions_compact ?lst ! 1) = ''action''"
    by (simp add: nodePositions_fs_def nodePositions_compact_def Let_def)
  from d have d': "distribute_fs ?lst 220 160 0.5 Map.empty ''b''
     = Some \<lparr>pos_x = cx_fs + 220 * cos (0.5 + real 1 * (2 * pi / real 2) - pi / 2),
             pos_y = cy_fs + 160 * sin (0.5 + real 1 * (2 * pi / real 2) - pi / 2)\<rparr>
   \<and> distribute_compact ?lst 90 0.5 Map.empty ''b''
     = Some \<lparr>pos_x = cx_compact + 90 * cos (0.5 + real 1 * (2 * pi / real 2) - pi / 2),
             pos_y = cy_compact + 90 * sin (0.5 + real 1 * (2 * pi / real 2) - pi / 2)\<rparr>"
    by (simp add: ring_slot_def Let_def)
  from l have l': "at_x (nodePositions_fs ?lst ! 1) = cx_fs + 220 * cos (0.5 + real 1 * (2 * pi / real 2) - pi / 2)
     \<and> at_y (nodePositions_fs ?lst ! 1) = cy_fs + 160 * sin (0.5 + real 1 * (2 * pi / real 2) - pi / 2)
     \<and> at_x (nodePositions_compact ?lst ! 1) = cx_compact + 90 * cos (0.5 + real 1 * (2 * pi / real 2) - pi / 2)
     \<and> at_y (nodePositions_compact ?lst ! 1) = cy_compact + 90 * sin (0.5 + real 1 * (2 * pi / real 2) - pi / 2)"
    by (simp add: ring_slot_def Let_def acts)
  have fs: "nodePositions_fs ?lst ! 1
     = \<lparr>node_id = ''b'', node_label = ''B'', node_type = ''action'',
        at_x = cx_fs + 220 * cos (0.5 + real 1 * (2 * pi / real 2) - pi / 2),
        at_y = cy_fs + 160 * sin (0.5 + real 1 * (2 * pi / real 2) - pi / 2)\<rparr>"
    by (rule PositionedNode.equality) (use n l' in simp_all)
  have cp: "nodePositions_compact ?lst ! 1
     = \<lparr>node_id = ''b'', node_label = ''B'', node_type = ''action'',
        at_x = cx_compact + 90 * cos (0.5 + real 1 * (2 * pi / real 2) - pi / 2),
        at_y = cy_compact + 90 * sin (0.5 + real 1 * (2 * pi / real 2) - pi / 2)\<rparr>"
    by (rule PositionedNode.equality) (use n l' in simp_all)
  from d' fs cp show ?thesis by blast
qed

subsection \<open>LayoutEngine: a single entity\<close>

lemma filter_single:
  assumes "length (filter P xs) = 1" and "x \<in> set xs" and "P x"
  shows "filter P xs = [x]"
proof -
  from assms(1) obtain y where y: "filter P xs = [y]"
    by (cases "filter P xs") auto
  from assms(2,3) have "x \<in> set (filter P xs)" by simp
  with y show ?thesis by simp
qed

lemma id_not_in_filter:
  assumes i: "i < length nodes"
    and uniq: "\<forall>j. j < length nodes \<and> j \<noteq> i \<longrightarrow> node_id (nodes ! j) \<noteq> node_id (nodes ! i)"
    and Q: "\<not> Q (nodes ! i)"
  shows "node_id (nodes ! i) \<notin> node_id ` set (filter Q nodes)"
proof
  assume "node_id (nodes ! i) \<in> node_id ` set (filter Q nodes)"
  then obtain n where n1: "n \<in> set nodes" and n2: "Q n" and eq: "node_id n = node_id (nodes ! i)"
    by auto
  from n1 obtain j where j1: "j < length nodes" and j2: "nodes ! j = n"
    by (metis in_set_conv_nth)
  from n2 j2 Q have "j \<noteq> i" by blast
  with uniq j1 have "node_id (nodes ! j) \<noteq> node_id (nodes ! i)" by blast
  with j2 eq show False by simp
qed

lemma single_entity_posMaps:
  assumes one: "length (entities nodes) = 1"
    and i: "i < length nodes"
    and ent: "node_type (nodes ! i) = ''entity''"
    and uniq: "\<forall>j. j < length nodes \<and> j \<noteq> i \<longrightarrow> node_id (nodes ! j) \<noteq> node_id (nodes ! i)"
  shows "posMap_fs nodes (node_id (nodes ! i)) = Some \<lparr>pos_x = cx_fs, pos_y = cy_fs\<rparr>"
    and "posMap_compact nodes (node_id (nodes ! i)) = Some \<lparr>pos_x = cx_compact, pos_y = cy_compact\<rparr>"
proof -
  let ?e = "nodes ! i"
  from i have mem: "?e \<in> set nodes" by simp
  from one have "length (filter (\<lambda>n. node_type n = ''entity'') nodes) = 1"
    by (simp only: entities_def)
  from filter_single [of "\<lambda>n. node_type n = ''entity''" nodes ?e, OF this mem ent]
  have es: "entities nodes = [?e]"
    by (simp only: entities_def)
  have a: "node_id ?e \<notin> node_id ` set (actions nodes)"
    unfolding actions_def using i uniq by (rule id_not_in_filter) (simp add: ent)
  have r: "node_id ?e \<notin> node_id ` set (results nodes)"
    unfolding results_def using i uniq by (rule id_not_in_filter) (simp add: ent)
  have ri: "node_id ?e \<notin> node_id ` set (risks nodes)"
    unfolding risks_def using i uniq by (rule id_not_in_filter) (simp add: ent)
  have ou: "node_id ?e \<notin> node_id ` set (outcomes nodes)"
    unfolding outcomes_def using i uniq by (rule id_not_in_filter) (simp add: ent)
  have ot: "node_id ?e \<notin> node_id ` set (others nodes)"
    unfolding others_def using i uniq by (rule id_not_in_filter) (simp add: ent)
  from r ot have t2f: "node_id ?e \<notin> node_id ` set (tier2_fs nodes)"
    by (simp add: tier2_fs_def image_Un)
  from ri ou ot have t2c: "node_id ?e \<notin> node_id ` set (tier2_compact nodes)"
    by (simp add: tier2_compact_def image_Un)
  have "posMap_fs nodes (node_id ?e)
        = (Map.empty(node_id ?e \<mapsto> \<lparr>pos_x = cx_fs, pos_y = cy_fs\<rparr>)) (node_id ?e)"
    unfolding posMap_fs_def Let_def es
    by (simp only: distribute_fs_other [OF t2f] distribute_fs_other [OF a]
                   list.size nth_Cons_0 One_nat_def add_0 refl if_True)
  then show "posMap_fs nodes (node_id ?e) = Some \<lparr>pos_x = cx_fs, pos_y = cy_fs\<rparr>"
    by simp
  have "posMap_compact nodes (node_id ?e)
        = (Map.empty(node_id ?e \<mapsto> \<lparr>pos_x = cx_compact, pos_y = cy_compact\<rparr>)) (node_id ?e)"
    unfolding posMap_compact_def Let_def es
    by (simp only: distribute_compact_other [OF t2c] distribute_compact_other [OF a]
                   list.size nth_Cons_0 One_nat_def add_0 refl if_True)
  then show "posMap_compact nodes (node_id ?e) = Some \<lparr>pos_x = cx_compact, pos_y = cy_compact\<rparr>"
    by simp
qed

lemma sin_half_pos: "0 < sin (1 / 2 :: real)"
proof -
  have "(1 / 2 :: real) < pi" using pi_ge_two by simp
  then show ?thesis by (simp add: sin_gt_zero)
qed

text \<open>
  The claim that a single entity node is at the centre for every node list fails when
  another node carries the entity's id: the position map has one entry per id, and the
  later \<^verbatim>\<open>distribute\<close> call overwrites the centre. With an entity node and an action node
  of the same id \<^verbatim>\<open>a\<close>, there is exactly one entity node, and it is drawn at slot 0 of
  the action ring, to the right of the centre.
\<close>

theorem shared_id_moves_single_entity:
  "length (entities [\<lparr>node_id = ''a'', node_label = ''E'', node_type = ''entity''\<rparr>,
                     \<lparr>node_id = ''a'', node_label = ''A'', node_type = ''action''\<rparr>]) = 1
   \<and> nodePositions_fs [\<lparr>node_id = ''a'', node_label = ''E'', node_type = ''entity''\<rparr>,
                       \<lparr>node_id = ''a'', node_label = ''A'', node_type = ''action''\<rparr>] ! 0
     = \<lparr>node_id = ''a'', node_label = ''E'', node_type = ''entity'',
        at_x = 400 + 220 * sin (1 / 2), at_y = 300 - 160 * cos (1 / 2)\<rparr>
   \<and> cx_fs = 400
   \<and> 400 + 220 * sin (1 / 2) \<noteq> (400 :: real)
   \<and> nodePositions_compact [\<lparr>node_id = ''a'', node_label = ''E'', node_type = ''entity''\<rparr>,
                            \<lparr>node_id = ''a'', node_label = ''A'', node_type = ''action''\<rparr>] ! 0
     = \<lparr>node_id = ''a'', node_label = ''E'', node_type = ''entity'',
        at_x = 200 + 90 * sin (1 / 2), at_y = 150 - 90 * cos (1 / 2)\<rparr>
   \<and> cx_compact = 200
   \<and> 200 + 90 * sin (1 / 2) \<noteq> (200 :: real)"
proof -
  let ?dup = "[\<lparr>node_id = ''a'', node_label = ''E'', node_type = ''entity''\<rparr>,
               \<lparr>node_id = ''a'', node_label = ''A'', node_type = ''action''\<rparr>]"
  have one: "length (entities ?dup) = 1" by (simp add: entities_def)
  have c: "cos (1 / 2 - pi / 2) = sin (1 / 2 :: real)" "sin (1 / 2 - pi / 2) = - cos (1 / 2 :: real)"
    by (simp_all add: cos_diff sin_diff)
  have pf: "posMap_fs ?dup ''a'' = Some \<lparr>pos_x = 400 + 220 * sin (1 / 2), pos_y = 300 - 160 * cos (1 / 2)\<rparr>"
    by (simp add: posMap_fs_def entities_def actions_def tier2_fs_def results_def
                  others_def distribute_fs_def Let_def c
                  cx_fs_def cy_fs_def width_fs_def height_fs_def)
  have pc: "posMap_compact ?dup ''a'' = Some \<lparr>pos_x = 200 + 90 * sin (1 / 2), pos_y = 150 - 90 * cos (1 / 2)\<rparr>"
    by (simp add: posMap_compact_def entities_def actions_def tier2_compact_def risks_def
                  outcomes_def others_def distribute_compact_def Let_def c
                  cx_compact_def cy_compact_def width_compact_def height_compact_def)
  have cs: "cx_fs = 400" "cx_compact = 200"
    by (simp_all add: cx_fs_def width_fs_def cx_compact_def width_compact_def)
  from sin_half_pos have ne: "400 + 220 * sin (1 / 2) \<noteq> (400 :: real)"
    "200 + 90 * sin (1 / 2) \<noteq> (200 :: real)"
    by simp_all
  from one pf pc cs ne show ?thesis
    by (simp add: nodePositions_fs_def nodePositions_compact_def)
qed

text \<open>
  C4, as amended. For every node list in which exactly one node has type \<^verbatim>\<open>entity\<close>
  and no other node carries that node's id, both layouts place that node exactly at
  the canvas centre \<open>(cx, cy)\<close>, whatever nodes of other types are present.
\<close>

theorem single_entity_centered:
  assumes "length (entities nodes) = 1"
    and "i < length nodes"
    and "node_type (nodes ! i) = ''entity''"
    and "\<forall>j. j < length nodes \<and> j \<noteq> i \<longrightarrow> node_id (nodes ! j) \<noteq> node_id (nodes ! i)"
  shows "nodePositions_fs nodes ! i
           = \<lparr>node_id = node_id (nodes ! i), node_label = node_label (nodes ! i),
              node_type = ''entity'', at_x = cx_fs, at_y = cy_fs\<rparr>
         \<and> nodePositions_compact nodes ! i
           = \<lparr>node_id = node_id (nodes ! i), node_label = node_label (nodes ! i),
              node_type = ''entity'', at_x = cx_compact, at_y = cy_compact\<rparr>"
  using assms(2,3) single_entity_posMaps [OF assms]
  by (simp add: nodePositions_fs_def nodePositions_compact_def)

text \<open>One entity among an action and a risk node (at index 1 of the list).\<close>

theorem single_entity_centered_witness:
  "nodePositions_fs [\<lparr>node_id = ''b'', node_label = ''B'', node_type = ''action''\<rparr>,
                     \<lparr>node_id = ''a'', node_label = ''A'', node_type = ''entity''\<rparr>,
                     \<lparr>node_id = ''c'', node_label = ''C'', node_type = ''risk''\<rparr>] ! 1
     = \<lparr>node_id = ''a'', node_label = ''A'', node_type = ''entity'', at_x = 400, at_y = 300\<rparr>
   \<and> nodePositions_compact [\<lparr>node_id = ''b'', node_label = ''B'', node_type = ''action''\<rparr>,
                     \<lparr>node_id = ''a'', node_label = ''A'', node_type = ''entity''\<rparr>,
                     \<lparr>node_id = ''c'', node_label = ''C'', node_type = ''risk''\<rparr>] ! 1
     = \<lparr>node_id = ''a'', node_label = ''A'', node_type = ''entity'', at_x = 200, at_y = 150\<rparr>"
proof -
  let ?nodes = "[\<lparr>node_id = ''b'', node_label = ''B'', node_type = ''action''\<rparr>,
                 \<lparr>node_id = ''a'', node_label = ''A'', node_type = ''entity''\<rparr>,
                 \<lparr>node_id = ''c'', node_label = ''C'', node_type = ''risk''\<rparr>]"
  have h1: "length (entities ?nodes) = 1" by (simp add: entities_def)
  have h2: "1 < length ?nodes" by simp
  have h3: "node_type (?nodes ! 1) = ''entity''" by simp
  have h4: "\<forall>j. j < length ?nodes \<and> j \<noteq> 1 \<longrightarrow> node_id (?nodes ! j) \<noteq> node_id (?nodes ! 1)"
    by (simp add: nth_Cons' less_Suc_eq)
  have c: "cx_fs = 400 \<and> cy_fs = 300 \<and> cx_compact = 200 \<and> cy_compact = 150"
    by (simp add: cx_fs_def cy_fs_def width_fs_def height_fs_def
                  cx_compact_def cy_compact_def width_compact_def height_compact_def)
  from single_entity_centered [OF h1 h2 h3 h4] c show ?thesis by simp
qed

subsection \<open>LayoutEngine: the outer ring\<close>

lemma insort_key_append_less:
  assumes "\<forall>a \<in> set as. f a < f x"
  shows "insort_key f x (as @ bs) = as @ insort_key f x bs"
  using assms by (induction as) auto

lemma tier2_compact_Cons:
  "tier2_compact (n # nodes) =
     (if outer_ring_member n
      then insort_key risk_outcome_other_rank n (tier2_compact nodes)
      else tier2_compact nodes)"
proof -
  have r: "\<forall>a \<in> set (risks nodes). risk_outcome_other_rank a = 0"
    by (simp add: risks_def risk_outcome_other_rank_def)
  have o: "\<forall>a \<in> set (outcomes nodes). risk_outcome_other_rank a = 1"
    by (simp add: outcomes_def risk_outcome_other_rank_def)
  have t: "\<forall>a \<in> set (others nodes). risk_outcome_other_rank a = 2"
    by (simp add: others_def risk_outcome_other_rank_def)
  consider (risk) "node_type n = ''risk''" | (outcome) "node_type n = ''outcome''"
    | (ea) "node_type n = ''entity'' \<or> node_type n = ''action''"
    | (other) "node_type n \<notin> {''entity'', ''action'', ''risk'', ''outcome''}"
    by auto
  then show ?thesis
  proof cases
    case risk
    then have k: "risk_outcome_other_rank n = 0" by (simp add: risk_outcome_other_rank_def)
    have "insort_key risk_outcome_other_rank n (tier2_compact nodes) = n # tier2_compact nodes"
      by (rule insort_is_Cons) (simp add: k)
    with risk show ?thesis
      by (simp add: tier2_compact_def risks_def outcomes_def others_def outer_ring_member_def)
  next
    case outcome
    then have k: "risk_outcome_other_rank n = 1" by (simp add: risk_outcome_other_rank_def)
    have "insort_key risk_outcome_other_rank n (outcomes nodes @ others nodes)
          = n # outcomes nodes @ others nodes"
      by (rule insort_is_Cons) (use o t k in auto)
    moreover have "insort_key risk_outcome_other_rank n (risks nodes @ outcomes nodes @ others nodes)
          = risks nodes @ insort_key risk_outcome_other_rank n (outcomes nodes @ others nodes)"
      by (rule insort_key_append_less) (simp add: r k)
    ultimately show ?thesis using outcome
      by (simp add: tier2_compact_def risks_def outcomes_def others_def outer_ring_member_def)
  next
    case ea
    then show ?thesis
      by (auto simp: tier2_compact_def risks_def outcomes_def others_def outer_ring_member_def)
  next
    case other
    then have k: "risk_outcome_other_rank n = 2" by (simp add: risk_outcome_other_rank_def)
    have "insort_key risk_outcome_other_rank n (others nodes) = n # others nodes"
      by (rule insort_is_Cons) (use t k in auto)
    moreover have "insort_key risk_outcome_other_rank n ((risks nodes @ outcomes nodes) @ others nodes)
          = (risks nodes @ outcomes nodes) @ insort_key risk_outcome_other_rank n (others nodes)"
      by (rule insort_key_append_less) (use r o k in auto)
    ultimately show ?thesis using other
      by (simp add: tier2_compact_def risks_def outcomes_def others_def outer_ring_member_def)
  qed
qed

lemma tier2_compact_sort:
  "tier2_compact nodes = sort_key risk_outcome_other_rank (filter outer_ring_member nodes)"
proof (induction nodes)
  case Nil
  show ?case
    by (simp add: tier2_compact_def risks_def outcomes_def others_def)
next
  case (Cons n nodes)
  then show ?case by (simp add: tier2_compact_Cons)
qed

lemma tier2_fs_Cons:
  "tier2_fs (n # nodes) =
     (if outer_ring_member n
      then insort_key results_other_rank n (tier2_fs nodes)
      else tier2_fs nodes)"
proof -
  have r: "\<forall>a \<in> set (results nodes). results_other_rank a = 0"
    by (auto simp: results_def results_other_rank_def)
  have t: "\<forall>a \<in> set (others nodes). results_other_rank a = 1"
    by (simp add: others_def results_other_rank_def)
  consider (result) "node_type n = ''risk'' \<or> node_type n = ''outcome''"
    | (ea) "node_type n = ''entity'' \<or> node_type n = ''action''"
    | (other) "node_type n \<notin> {''entity'', ''action'', ''risk'', ''outcome''}"
    by auto
  then show ?thesis
  proof cases
    case result
    then have k: "results_other_rank n = 0" by (simp add: results_other_rank_def)
    have "insort_key results_other_rank n (tier2_fs nodes) = n # tier2_fs nodes"
      by (rule insort_is_Cons) (simp add: k)
    with result show ?thesis
      by (auto simp: tier2_fs_def results_def others_def outer_ring_member_def)
  next
    case ea
    then show ?thesis
      by (auto simp: tier2_fs_def results_def others_def outer_ring_member_def)
  next
    case other
    then have k: "results_other_rank n = 1" by (simp add: results_other_rank_def)
    have "insort_key results_other_rank n (others nodes) = n # others nodes"
      by (rule insort_is_Cons) (use t k in auto)
    moreover have "insort_key results_other_rank n (results nodes @ others nodes)
          = results nodes @ insort_key results_other_rank n (others nodes)"
      by (rule insort_key_append_less) (use r k in auto)
    ultimately show ?thesis using other
      by (simp add: tier2_fs_def results_def others_def outer_ring_member_def)
  qed
qed

lemma tier2_fs_sort:
  "tier2_fs nodes = sort_key results_other_rank (filter outer_ring_member nodes)"
proof (induction nodes)
  case Nil
  show ?case
    by (simp add: tier2_fs_def results_def others_def)
next
  case (Cons n nodes)
  then show ?case by (simp add: tier2_fs_Cons)
qed

lemma sorted_results_split:
  assumes "sorted (map risk_outcome_other_rank ys)"
    and "\<forall>y \<in> set ys. node_type y = ''risk'' \<or> node_type y = ''outcome''"
  shows "ys = filter (\<lambda>n. node_type n = ''risk'') ys @ filter (\<lambda>n. node_type n = ''outcome'') ys"
  using assms
proof (induction ys)
  case Nil
  show ?case by simp
next
  case (Cons y ys)
  from Cons.prems have IH: "ys = filter (\<lambda>n. node_type n = ''risk'') ys @ filter (\<lambda>n. node_type n = ''outcome'') ys"
    by (intro Cons.IH) simp_all
  show ?case
  proof (cases "node_type y = ''risk''")
    case True
    with IH show ?thesis by simp
  next
    case False
    with Cons.prems(2) have out: "node_type y = ''outcome''" by simp
    then have ky: "risk_outcome_other_rank y = 1" by (simp add: risk_outcome_other_rank_def)
    have all_out: "\<forall>z \<in> set ys. node_type z = ''outcome''"
    proof
      fix z assume z: "z \<in> set ys"
      with Cons.prems(1) ky have "1 \<le> risk_outcome_other_rank z" by auto
      then have "node_type z \<noteq> ''risk''"
        by (auto simp: risk_outcome_other_rank_def)
      with Cons.prems(2) z show "node_type z = ''outcome''" by auto
    qed
    then have "filter (\<lambda>n. node_type n = ''risk'') ys = []"
      by (auto simp: filter_empty_conv)
    moreover from all_out have "filter (\<lambda>n. node_type n = ''outcome'') ys = ys"
      by (simp add: filter_id_conv)
    ultimately show ?thesis using out by simp
  qed
qed

lemma sorted_map_const:
  assumes "\<forall>a \<in> set as. f a = (c::nat)"
  shows "sorted (map f as)"
  using assms by (induction as) auto

lemma tier2_same_iff:
  "(tier2_fs nodes = tier2_compact nodes) = sorted (map risk_outcome_other_rank (results nodes))"
proof -
  have fr: "filter (\<lambda>n. node_type n = ''risk'') (results nodes) = risks nodes"
    by (auto simp: results_def risks_def intro: filter_cong)
  have fo: "filter (\<lambda>n. node_type n = ''outcome'') (results nodes) = outcomes nodes"
    by (auto simp: results_def outcomes_def intro: filter_cong)
  have eq: "(tier2_fs nodes = tier2_compact nodes) = (results nodes = risks nodes @ outcomes nodes)"
    by (simp add: tier2_fs_def tier2_compact_def)
  show ?thesis
  proof
    assume "tier2_fs nodes = tier2_compact nodes"
    with eq have "results nodes = risks nodes @ outcomes nodes" by simp
    moreover have "sorted (map risk_outcome_other_rank (risks nodes @ outcomes nodes))"
    proof -
      have r: "\<forall>a \<in> set (risks nodes). risk_outcome_other_rank a = 0"
        by (simp add: risks_def risk_outcome_other_rank_def)
      have o: "\<forall>a \<in> set (outcomes nodes). risk_outcome_other_rank a = 1"
        by (simp add: outcomes_def risk_outcome_other_rank_def)
      from r o sorted_map_const [OF r] sorted_map_const [OF o] show ?thesis
        by (simp add: sorted_append)
    qed
    ultimately show "sorted (map risk_outcome_other_rank (results nodes))" by simp
  next
    assume s: "sorted (map risk_outcome_other_rank (results nodes))"
    have "\<forall>y \<in> set (results nodes). node_type y = ''risk'' \<or> node_type y = ''outcome''"
      by (auto simp: results_def)
    from sorted_results_split [OF s this] fr fo
    have "results nodes = risks nodes @ outcomes nodes" by simp
    with eq show "tier2_fs nodes = tier2_compact nodes" by simp
  qed
qed

lemma tier2_fs_position:
  assumes "i < length (tier2_fs nodes)"
    and "\<forall>j. i < j \<and> j < length (tier2_fs nodes)
             \<longrightarrow> node_id (tier2_fs nodes ! j) \<noteq> node_id (tier2_fs nodes ! i)"
  shows "posMap_fs nodes (node_id (tier2_fs nodes ! i))
         = Some \<lparr>pos_x = cx_fs + 320 * cos (1 + real i * (2 * pi / real (length (tier2_fs nodes))) - pi / 2),
                 pos_y = cy_fs + 240 * sin (1 + real i * (2 * pi / real (length (tier2_fs nodes))) - pi / 2)\<rparr>"
  unfolding posMap_fs_def Let_def by (rule distribute_fs_at [OF assms])

lemma tier2_compact_position:
  assumes "i < length (tier2_compact nodes)"
    and "\<forall>j. i < j \<and> j < length (tier2_compact nodes)
             \<longrightarrow> node_id (tier2_compact nodes ! j) \<noteq> node_id (tier2_compact nodes ! i)"
  shows "posMap_compact nodes (node_id (tier2_compact nodes ! i))
         = Some \<lparr>pos_x = cx_compact + 130 * cos (1 + real i * (2 * pi / real (length (tier2_compact nodes))) - pi / 2),
                 pos_y = cy_compact + 130 * sin (1 + real i * (2 * pi / real (length (tier2_compact nodes))) - pi / 2)\<rparr>"
  unfolding posMap_compact_def Let_def by (rule distribute_compact_at [OF assms])

text \<open>
  The claim that both components order the outer ring risk-then-outcome-then-other
  fails for the full-screen component: for an outcome node followed by a risk node it
  hands them to \<^verbatim>\<open>distribute\<close> in that order, outcome first, while the compact
  component puts the risk node first.
\<close>

theorem tier2_fs_outcome_before_risk:
  "tier2_fs [\<lparr>node_id = ''o'', node_label = ''O'', node_type = ''outcome''\<rparr>,
             \<lparr>node_id = ''r'', node_label = ''R'', node_type = ''risk''\<rparr>]
     = [\<lparr>node_id = ''o'', node_label = ''O'', node_type = ''outcome''\<rparr>,
        \<lparr>node_id = ''r'', node_label = ''R'', node_type = ''risk''\<rparr>]
   \<and> \<not> sorted (map risk_outcome_other_rank
                  (tier2_fs [\<lparr>node_id = ''o'', node_label = ''O'', node_type = ''outcome''\<rparr>,
                             \<lparr>node_id = ''r'', node_label = ''R'', node_type = ''risk''\<rparr>]))
   \<and> tier2_compact [\<lparr>node_id = ''o'', node_label = ''O'', node_type = ''outcome''\<rparr>,
                    \<lparr>node_id = ''r'', node_label = ''R'', node_type = ''risk''\<rparr>]
     = [\<lparr>node_id = ''r'', node_label = ''R'', node_type = ''risk''\<rparr>,
        \<lparr>node_id = ''o'', node_label = ''O'', node_type = ''outcome''\<rparr>]"
  by (simp add: tier2_fs_def tier2_compact_def results_def risks_def outcomes_def others_def
                risk_outcome_other_rank_def)

text \<open>
  C3, as amended. Both components place the outer ring with \<^verbatim>\<open>distribute\<close> at their
  largest radius (130 compact, 320 by 240 full-screen) and phase offset 1, and its
  members are the nodes that are neither entity nor action. The compact component
  orders them risk, then outcome, then other, each group in input order (a stable
  sort by that rank). The full-screen component orders them risk-or-outcome in input
  order, then the others in input order (a stable sort by the two-valued rank): it
  does not put risk before outcome. The two rings hold the same sequence exactly when
  no outcome node precedes a risk node in the input.
\<close>

theorem outer_ring_order:
  "tier2_compact nodes = sort_key risk_outcome_other_rank (filter outer_ring_member nodes)
   \<and> tier2_fs nodes = sort_key results_other_rank (filter outer_ring_member nodes)
   \<and> ((tier2_fs nodes = tier2_compact nodes)
        = sorted (map risk_outcome_other_rank (results nodes)))
   \<and> (\<forall>i. i < length (tier2_fs nodes)
          \<and> (\<forall>j. i < j \<and> j < length (tier2_fs nodes)
                   \<longrightarrow> node_id (tier2_fs nodes ! j) \<noteq> node_id (tier2_fs nodes ! i))
        \<longrightarrow> posMap_fs nodes (node_id (tier2_fs nodes ! i))
            = Some \<lparr>pos_x = cx_fs + 320 * cos (1 + real i * (2 * pi / real (length (tier2_fs nodes))) - pi / 2),
                    pos_y = cy_fs + 240 * sin (1 + real i * (2 * pi / real (length (tier2_fs nodes))) - pi / 2)\<rparr>)
   \<and> (\<forall>i. i < length (tier2_compact nodes)
          \<and> (\<forall>j. i < j \<and> j < length (tier2_compact nodes)
                   \<longrightarrow> node_id (tier2_compact nodes ! j) \<noteq> node_id (tier2_compact nodes ! i))
        \<longrightarrow> posMap_compact nodes (node_id (tier2_compact nodes ! i))
            = Some \<lparr>pos_x = cx_compact + 130 * cos (1 + real i * (2 * pi / real (length (tier2_compact nodes))) - pi / 2),
                    pos_y = cy_compact + 130 * sin (1 + real i * (2 * pi / real (length (tier2_compact nodes))) - pi / 2)\<rparr>)"
  using tier2_compact_sort [of nodes] tier2_fs_sort [of nodes] tier2_same_iff [of nodes]
        tier2_fs_position [of _ nodes] tier2_compact_position [of _ nodes]
  by blast

text \<open>
  A risk node, an unknown-type node and an outcome node: the compact ring moves the
  outcome node before the unknown one, the full-screen ring as well, and the node at
  index 0 of each ring is placed at angle \<open>1 - pi / 2\<close>.
\<close>

theorem outer_ring_order_witness:
  "tier2_compact [\<lparr>node_id = ''r'', node_label = ''R'', node_type = ''risk''\<rparr>,
                  \<lparr>node_id = ''w'', node_label = ''W'', node_type = ''widget''\<rparr>,
                  \<lparr>node_id = ''o'', node_label = ''O'', node_type = ''outcome''\<rparr>]
     = sort_key risk_outcome_other_rank
         [\<lparr>node_id = ''r'', node_label = ''R'', node_type = ''risk''\<rparr>,
          \<lparr>node_id = ''w'', node_label = ''W'', node_type = ''widget''\<rparr>,
          \<lparr>node_id = ''o'', node_label = ''O'', node_type = ''outcome''\<rparr>]
   \<and> posMap_fs [\<lparr>node_id = ''r'', node_label = ''R'', node_type = ''risk''\<rparr>,
                \<lparr>node_id = ''w'', node_label = ''W'', node_type = ''widget''\<rparr>,
                \<lparr>node_id = ''o'', node_label = ''O'', node_type = ''outcome''\<rparr>] ''r''
     = Some \<lparr>pos_x = cx_fs + 320 * cos (1 - pi / 2), pos_y = cy_fs + 240 * sin (1 - pi / 2)\<rparr>
   \<and> posMap_compact [\<lparr>node_id = ''r'', node_label = ''R'', node_type = ''risk''\<rparr>,
                     \<lparr>node_id = ''w'', node_label = ''W'', node_type = ''widget''\<rparr>,
                     \<lparr>node_id = ''o'', node_label = ''O'', node_type = ''outcome''\<rparr>] ''r''
     = Some \<lparr>pos_x = cx_compact + 130 * cos (1 - pi / 2), pos_y = cy_compact + 130 * sin (1 - pi / 2)\<rparr>"
proof -
  let ?nodes = "[\<lparr>node_id = ''r'', node_label = ''R'', node_type = ''risk''\<rparr>,
                 \<lparr>node_id = ''w'', node_label = ''W'', node_type = ''widget''\<rparr>,
                 \<lparr>node_id = ''o'', node_label = ''O'', node_type = ''outcome''\<rparr>]"
  have tf: "tier2_fs ?nodes
            = [\<lparr>node_id = ''r'', node_label = ''R'', node_type = ''risk''\<rparr>,
               \<lparr>node_id = ''o'', node_label = ''O'', node_type = ''outcome''\<rparr>,
               \<lparr>node_id = ''w'', node_label = ''W'', node_type = ''widget''\<rparr>]"
    by (simp add: tier2_fs_def results_def others_def)
  have tc: "tier2_compact ?nodes
            = [\<lparr>node_id = ''r'', node_label = ''R'', node_type = ''risk''\<rparr>,
               \<lparr>node_id = ''o'', node_label = ''O'', node_type = ''outcome''\<rparr>,
               \<lparr>node_id = ''w'', node_label = ''W'', node_type = ''widget''\<rparr>]"
    by (simp add: tier2_compact_def risks_def outcomes_def others_def)
  have m: "filter outer_ring_member ?nodes = ?nodes"
    by (simp add: outer_ring_member_def)
  have hf: "0 < length (tier2_fs ?nodes)
            \<and> (\<forall>j. 0 < j \<and> j < length (tier2_fs ?nodes)
                   \<longrightarrow> node_id (tier2_fs ?nodes ! j) \<noteq> node_id (tier2_fs ?nodes ! 0))"
    unfolding tf by (simp add: nth_Cons' less_Suc_eq)
  have hc: "0 < length (tier2_compact ?nodes)
            \<and> (\<forall>j. 0 < j \<and> j < length (tier2_compact ?nodes)
                   \<longrightarrow> node_id (tier2_compact ?nodes ! j) \<noteq> node_id (tier2_compact ?nodes ! 0))"
    unfolding tc by (simp add: nth_Cons' less_Suc_eq)
  note inst = outer_ring_order [of ?nodes]
  from inst have a: "tier2_compact ?nodes = sort_key risk_outcome_other_rank (filter outer_ring_member ?nodes)"
    by (rule conjunct1)
  from inst hf have b: "posMap_fs ?nodes (node_id (tier2_fs ?nodes ! 0))
            = Some \<lparr>pos_x = cx_fs + 320 * cos (1 + real 0 * (2 * pi / real (length (tier2_fs ?nodes))) - pi / 2),
                    pos_y = cy_fs + 240 * sin (1 + real 0 * (2 * pi / real (length (tier2_fs ?nodes))) - pi / 2)\<rparr>"
    by blast
  from inst hc have c: "posMap_compact ?nodes (node_id (tier2_compact ?nodes ! 0))
            = Some \<lparr>pos_x = cx_compact + 130 * cos (1 + real 0 * (2 * pi / real (length (tier2_compact ?nodes))) - pi / 2),
                    pos_y = cy_compact + 130 * sin (1 + real 0 * (2 * pi / real (length (tier2_compact ?nodes))) - pi / 2)\<rparr>"
    by blast
  from a have a': "tier2_compact ?nodes = sort_key risk_outcome_other_rank ?nodes"
    by (simp only: m)
  from b have b': "posMap_fs ?nodes ''r''
            = Some \<lparr>pos_x = cx_fs + 320 * cos (1 - pi / 2), pos_y = cy_fs + 240 * sin (1 - pi / 2)\<rparr>"
    unfolding tf by simp
  from c have c': "posMap_compact ?nodes ''r''
            = Some \<lparr>pos_x = cx_compact + 130 * cos (1 - pi / 2), pos_y = cy_compact + 130 * sin (1 - pi / 2)\<rparr>"
    unfolding tc by simp
  from a' b' c' show ?thesis by blast
qed

subsection \<open>RenderPipeline: dangling edges\<close>

lemma findNode_fs_None:
  "(findNode (nodePositions_fs nodes) k = None) = (k \<notin> node_id ` set nodes)"
  by (auto simp: findNode_def find_None_iff nodePositions_fs_def Let_def)

lemma findNode_compact_None:
  "(findNode (nodePositions_compact nodes) k = None) = (k \<notin> node_id ` set nodes)"
  by (auto simp: findNode_def find_None_iff nodePositions_compact_def Let_def)

lemma renderEdge_fs_None:
  "(renderEdge_fs nps h vs e = None)
   = (findNode nps (edge_from e) = None \<or> findNode nps (edge_to e) = None)"
  by (simp add: renderEdge_fs_def Let_def split: option.splits)

lemma renderEdge_compact_None:
  "(renderEdge_compact nps h e = None)
   = (findNode nps (edge_from e) = None \<or> findNode nps (edge_to e) = None)"
  by (simp add: renderEdge_compact_def Let_def split: option.splits)

text \<open>
  C5. In both render pipelines, the element of an edge is \<^verbatim>\<open>null\<close> (no line, no label)
  exactly when its \<^verbatim>\<open>from\<close> or its \<^verbatim>\<open>to\<close> id is the id of no node; every other edge
  has an element. The scene holds one such entry per edge, in the order of the edge
  list. The render functions are total: no input makes them fail.
\<close>

theorem dangling_edges_dropped:
  "(renderEdge_fs (nodePositions_fs nodes) h vs e = None)
     = (edge_from e \<notin> node_id ` set nodes \<or> edge_to e \<notin> node_id ` set nodes)
   \<and> (renderEdge_compact (nodePositions_compact nodes) h e = None)
     = (edge_from e \<notin> node_id ` set nodes \<or> edge_to e \<notin> node_id ` set nodes)
   \<and> group_edges (render_fs nodes edges h vs)
     = map (renderEdge_fs (nodePositions_fs nodes) h vs) edges
   \<and> svg_edges (render_compact nodes edges h)
     = map (renderEdge_compact (nodePositions_compact nodes) h) edges"
  by (simp add: renderEdge_fs_None renderEdge_compact_None findNode_fs_None findNode_compact_None
                render_fs_def render_compact_def Let_def)

text \<open>
  Three nodes and two edges, the second one to an id that no node has: the first edge
  is rendered, the second is not, in both components.
\<close>

theorem dangling_edges_dropped_witness:
  "map (\<lambda>el. el = None)
       (group_edges (render_fs [\<lparr>node_id = ''a'', node_label = ''A'', node_type = ''entity''\<rparr>,
                                \<lparr>node_id = ''b'', node_label = ''B'', node_type = ''action''\<rparr>,
                                \<lparr>node_id = ''c'', node_label = ''C'', node_type = ''risk''\<rparr>]
                               [\<lparr>edge_from = ''a'', edge_to = ''b'', edge_label = ''leads to''\<rparr>,
                                \<lparr>edge_from = ''a'', edge_to = ''zzz'', edge_label = ''x''\<rparr>]
                               None \<lparr>view_x = 0, view_y = 0, view_scale = 1\<rparr>))
     = [False, True]
   \<and> map (\<lambda>el. el = None)
       (svg_edges (render_compact [\<lparr>node_id = ''a'', node_label = ''A'', node_type = ''entity''\<rparr>,
                                   \<lparr>node_id = ''b'', node_label = ''B'', node_type = ''action''\<rparr>,
                                   \<lparr>node_id = ''c'', node_label = ''C'', node_type = ''risk''\<rparr>]
                                  [\<lparr>edge_from = ''a'', edge_to = ''b'', edge_label = ''leads to''\<rparr>,
                                   \<lparr>edge_from = ''a'', edge_to = ''zzz'', edge_label = ''x''\<rparr>]
                                  None))
     = [False, True]"
proof -
  let ?nodes = "[\<lparr>node_id = ''a'', node_label = ''A'', node_type = ''entity''\<rparr>,
                 \<lparr>node_id = ''b'', node_label = ''B'', node_type = ''action''\<rparr>,
                 \<lparr>node_id = ''c'', node_label = ''C'', node_type = ''risk''\<rparr>]"
  let ?e1 = "\<lparr>edge_from = ''a'', edge_to = ''b'', edge_label = ''leads to''\<rparr>"
  let ?e2 = "\<lparr>edge_from = ''a'', edge_to = ''zzz'', edge_label = ''x''\<rparr>"
  let ?vs = "\<lparr>view_x = 0, view_y = 0, view_scale = 1\<rparr>"
  note d1 = dangling_edges_dropped [of ?nodes None ?vs ?e1 "[?e1, ?e2]"]
  note d2 = dangling_edges_dropped [of ?nodes None ?vs ?e2 "[?e1, ?e2]"]
  from d1 have f1: "renderEdge_fs (nodePositions_fs ?nodes) None ?vs ?e1 \<noteq> None"
    and c1: "renderEdge_compact (nodePositions_compact ?nodes) None ?e1 \<noteq> None"
    by simp_all
  from d2 have f2: "renderEdge_fs (nodePositions_fs ?nodes) None ?vs ?e2 = None"
    and c2: "renderEdge_compact (nodePositions_compact ?nodes) None ?e2 = None"
    by simp_all
  from d1 have g: "group_edges (render_fs ?nodes [?e1, ?e2] None ?vs)
                   = map (renderEdge_fs (nodePositions_fs ?nodes) None ?vs) [?e1, ?e2]"
    and s: "svg_edges (render_compact ?nodes [?e1, ?e2] None)
                   = map (renderEdge_compact (nodePositions_compact ?nodes) None) [?e1, ?e2]"
    by blast+
  from f1 f2 c1 c2 show ?thesis
    unfolding g s by simp
qed

subsection \<open>RenderPipeline: hover dimming\<close>

text \<open>
  What the opacity attributes are, for every hover state. With no hover every edge
  and node is fully opaque. With a hovered id that is a non-empty string, an edge
  touching it is fully opaque and every other edge has opacity 0.1, the nodes with
  that id are fully opaque and every other node has opacity 0.3 (0.2 compact). With
  the empty string as hovered id the truthiness tests fail and nothing is dimmed.
\<close>

lemma edge_opacity_fs:
  assumes "renderEdge_fs nps h vs e = Some el"
  shows "fe_opacity el =
           (case h of
              None \<Rightarrow> 1
            | Some N \<Rightarrow> if N = [] \<or> edge_from e = N \<or> edge_to e = N then 1 else 0.1)"
  using assms
  by (auto simp: renderEdge_fs_def Let_def isConnectedToHover_def truthy_def
           split: option.splits)

lemma edge_opacity_compact:
  assumes "renderEdge_compact nps h e = Some el"
  shows "ce_strokeOpacity el =
           (case h of
              None \<Rightarrow> 1
            | Some N \<Rightarrow> if N = [] \<or> edge_from e = N \<or> edge_to e = N then 1 else 0.1)"
  using assms
  by (auto simp: renderEdge_compact_def Let_def isConnectedToHover_def truthy_def
           split: option.splits)

lemma node_opacity_fs:
  "fn_opacity (renderNode_fs h vs p) =
     (case h of
        None \<Rightarrow> 1
      | Some N \<Rightarrow> if N = [] \<or> node_id p = N then 1 else 0.3)"
  by (auto simp: renderNode_fs_def Let_def isDimmed_def truthy_def split: option.splits)

lemma node_opacity_compact:
  "cn_opacity (renderNode_compact h p) =
     (case h of
        None \<Rightarrow> 1
      | Some N \<Rightarrow> if N = [] \<or> node_id p = N then 1 else 0.2)"
  by (auto simp: renderNode_compact_def Let_def isDimmed_def truthy_def split: option.splits)

text \<open>
  C6 at a graph whose entity node has the empty string as id, an edge between the two
  other nodes, and the pointer over the entity node (the hover state is the one the
  node-enter handler sets). The claim asks for opacity 0.1 on the edge and 0.3 (0.2
  compact) on the two other nodes; both components render the edge and all three
  nodes fully opaque.
\<close>

theorem hover_empty_id_dims_nothing:
  "onMouseEnter \<lparr>node_id = '''', node_label = ''E'', node_type = ''entity''\<rparr> None = Some ''''
   \<and> map (map_option fe_opacity)
       (group_edges (render_fs [\<lparr>node_id = '''', node_label = ''E'', node_type = ''entity''\<rparr>,
                                \<lparr>node_id = ''b'', node_label = ''B'', node_type = ''action''\<rparr>,
                                \<lparr>node_id = ''c'', node_label = ''C'', node_type = ''risk''\<rparr>]
                               [\<lparr>edge_from = ''b'', edge_to = ''c'', edge_label = ''causes''\<rparr>]
                               (Some '''') \<lparr>view_x = 0, view_y = 0, view_scale = 1\<rparr>))
     = [Some 1]
   \<and> map fn_opacity
       (group_nodes (render_fs [\<lparr>node_id = '''', node_label = ''E'', node_type = ''entity''\<rparr>,
                                \<lparr>node_id = ''b'', node_label = ''B'', node_type = ''action''\<rparr>,
                                \<lparr>node_id = ''c'', node_label = ''C'', node_type = ''risk''\<rparr>]
                               [\<lparr>edge_from = ''b'', edge_to = ''c'', edge_label = ''causes''\<rparr>]
                               (Some '''') \<lparr>view_x = 0, view_y = 0, view_scale = 1\<rparr>))
     = [1, 1, 1]
   \<and> map (map_option ce_strokeOpacity)
       (svg_edges (render_compact [\<lparr>node_id = '''', node_label = ''E'', node_type = ''entity''\<rparr>,
                                   \<lparr>node_id = ''b'', node_label = ''B'', node_type = ''action''\<rparr>,
                                   \<lparr>node_id = ''c'', node_label = ''C'', node_type = ''risk''\<rparr>]
                                  [\<lparr>edge_from = ''b'', edge_to = ''c'', edge_label = ''causes''\<rparr>]
                                  (Some '''')))
     = [Some 1]
   \<and> map cn_opacity
       (svg_nodes (render_compact [\<lparr>node_id = '''', node_label = ''E'', node_type = ''entity''\<rparr>,
                                   \<lparr>node_id = ''b'', node_label = ''B'', node_type = ''action''\<rparr>,
                                   \<lparr>node_id = ''c'', node_label = ''C'', node_type = ''risk''\<rparr>]
                                  [\<lparr>edge_from = ''b'', edge_to = ''c'', edge_label = ''causes''\<rparr>]
                                  (Some '''')))
     = [1, 1, 1]"
proof -
  let ?nodes = "[\<lparr>node_id = '''', node_label = ''E'', node_type = ''entity''\<rparr>,
                 \<lparr>node_id = ''b'', node_label = ''B'', node_type = ''action''\<rparr>,
                 \<lparr>node_id = ''c'', node_label = ''C'', node_type = ''risk''\<rparr>]"
  let ?e = "\<lparr>edge_from = ''b'', edge_to = ''c'', edge_label = ''causes''\<rparr>"
  let ?vs = "\<lparr>view_x = 0, view_y = 0, view_scale = 1\<rparr>"
  have enter: "onMouseEnter \<lparr>node_id = '''', node_label = ''E'', node_type = ''entity''\<rparr> None = Some ''''"
    by (simp add: onMouseEnter_def)
  have "findNode (nodePositions_fs ?nodes) ''b'' \<noteq> None"
    and "findNode (nodePositions_fs ?nodes) ''c'' \<noteq> None"
    by (simp_all add: findNode_fs_None)
  then have "renderEdge_fs (nodePositions_fs ?nodes) (Some '''') ?vs ?e \<noteq> None"
    by (simp add: renderEdge_fs_None)
  then obtain el where el: "renderEdge_fs (nodePositions_fs ?nodes) (Some '''') ?vs ?e = Some el"
    by blast
  from edge_opacity_fs [OF el] have "fe_opacity el = 1" by simp
  with el have ef: "map (map_option fe_opacity) (group_edges (render_fs ?nodes [?e] (Some '''') ?vs)) = [Some 1]"
    by (simp add: render_fs_def Let_def)
  have nf: "map fn_opacity (group_nodes (render_fs ?nodes [?e] (Some '''') ?vs)) = [1, 1, 1]"
    by (simp add: render_fs_def Let_def node_opacity_fs nodePositions_fs_def)
  have "findNode (nodePositions_compact ?nodes) ''b'' \<noteq> None"
    and "findNode (nodePositions_compact ?nodes) ''c'' \<noteq> None"
    by (simp_all add: findNode_compact_None)
  then have "renderEdge_compact (nodePositions_compact ?nodes) (Some '''') ?e \<noteq> None"
    by (simp add: renderEdge_compact_None)
  then obtain cl where cl: "renderEdge_compact (nodePositions_compact ?nodes) (Some '''') ?e = Some cl"
    by blast
  from edge_opacity_compact [OF cl] have "ce_strokeOpacity cl = 1" by simp
  with cl have ec: "map (map_option ce_strokeOpacity) (svg_edges (render_compact ?nodes [?e] (Some ''''))) = [Some 1]"
    by (simp add: render_compact_def Let_def)
  have nc: "map cn_opacity (svg_nodes (render_compact ?nodes [?e] (Some ''''))) = [1, 1, 1]"
    by (simp add: render_compact_def Let_def node_opacity_compact nodePositions_compact_def)
  from enter ef nf ec nc show ?thesis by blast
qed

subsection \<open>RenderPipeline: the tooltip\<close>

lemma find_over_map:
  "find P (map f xs) = map_option f (find (\<lambda>x. P (f x)) xs)"
  by (induction xs) simp_all

lemma activeNode_fs:
  "activeNode (nodePositions_fs nodes) h
   = map_option
       (\<lambda>n. let p = (case posMap_fs nodes (node_id n) of
                        Some q \<Rightarrow> q
                      | None \<Rightarrow> \<lparr>pos_x = cx_fs, pos_y = cy_fs\<rparr>)
             in \<lparr>node_id = node_id n, node_label = node_label n, node_type = node_type n,
                 at_x = pos_x p, at_y = pos_y p\<rparr>)
       (find (\<lambda>n. Some (node_id n) = h) nodes)"
  by (simp add: activeNode_def nodePositions_fs_def find_over_map Let_def)

lemma activeNode_compact:
  "activeNode (nodePositions_compact nodes) h
   = map_option
       (\<lambda>n. let p = (case posMap_compact nodes (node_id n) of
                        Some q \<Rightarrow> q
                      | None \<Rightarrow> \<lparr>pos_x = cx_compact, pos_y = cy_compact\<rparr>)
             in \<lparr>node_id = node_id n, node_label = node_label n, node_type = node_type n,
                 at_x = pos_x p, at_y = pos_y p\<rparr>)
       (find (\<lambda>n. Some (node_id n) = h) nodes)"
  by (simp add: activeNode_def nodePositions_compact_def find_over_map Let_def)

text \<open>
  The claim that the tooltip sits at a fixed position in both modes and shows the
  label and the type fails for the compact component. With two entity nodes, placed
  at (200, 110) and (200, 190), the tooltip of the first is at (200, 90) and the
  tooltip of the second at (200, 170), 20 units above the hovered node; its only text
  is the label, the type \<^verbatim>\<open>entity\<close> is not shown.
\<close>

theorem compact_tooltip_follows_node:
  "svg_tooltip (render_compact [\<lparr>node_id = ''a'', node_label = ''Alpha'', node_type = ''entity''\<rparr>,
                                \<lparr>node_id = ''b'', node_label = ''Beta'', node_type = ''entity''\<rparr>]
                               [] (Some ''a''))
     = Some \<lparr>tt_x = 200, tt_y = 90, tt_stroke = ''#06b6d4'', tt_texts = [''Alpha'']\<rparr>
   \<and> svg_tooltip (render_compact [\<lparr>node_id = ''a'', node_label = ''Alpha'', node_type = ''entity''\<rparr>,
                                  \<lparr>node_id = ''b'', node_label = ''Beta'', node_type = ''entity''\<rparr>]
                                 [] (Some ''b''))
     = Some \<lparr>tt_x = 200, tt_y = 170, tt_stroke = ''#06b6d4'', tt_texts = [''Beta'']\<rparr>"
proof -
  let ?nodes = "[\<lparr>node_id = ''a'', node_label = ''Alpha'', node_type = ''entity''\<rparr>,
                 \<lparr>node_id = ''b'', node_label = ''Beta'', node_type = ''entity''\<rparr>]"
  have pa: "posMap_compact ?nodes ''a'' = Some \<lparr>pos_x = 200, pos_y = 110\<rparr>"
    by (simp add: posMap_compact_def entities_def actions_def tier2_compact_def risks_def
                  outcomes_def others_def distribute_compact_def Let_def
                  cx_compact_def cy_compact_def width_compact_def height_compact_def)
  have pb: "posMap_compact ?nodes ''b'' = Some \<lparr>pos_x = 200, pos_y = 190\<rparr>"
    by (simp add: posMap_compact_def entities_def actions_def tier2_compact_def risks_def
                  outcomes_def others_def distribute_compact_def Let_def half_turn
                  cx_compact_def cy_compact_def width_compact_def height_compact_def)
  show ?thesis
    by (simp add: render_compact_def tooltip_compact_def activeNode_compact pa pb
                  getNodeColor_compact_def Let_def)
qed

text \<open>
  C9, as amended. Let the hovered id be the id of a node, and \<open>n\<close> the first node
  with that id. The full-screen scene then has a tooltip at the fixed offset (20, 20),
  a child of the \<^verbatim>\<open>svg\<close> element beside the group that carries the pan/zoom
  transform: its content is the same for every viewport offset and scale and does not
  mention the node's position; it shows the label and the type of \<open>n\<close>. The compact
  scene, which has no pan/zoom transform, has a tooltip anchored at the scene position
  of \<open>n\<close>, 20 units above it; it shows the label only, cut to 14 characters followed
  by two dots when it is longer than 15 characters, and the type only through the
  stroke colour of the panel. In both modes there is no tooltip when no node has the
  hovered id.
\<close>

theorem tooltip_placement:
  assumes "find (\<lambda>n. Some (node_id n) = h) nodes = Some n"
  shows "overlay_tooltip (render_fs nodes edges h vs)
           = Some \<lparr>tt_x = 20, tt_y = 20, tt_stroke = getNodeColor_fs (node_type n),
                   tt_texts = [node_label n, node_type n, ''Double click to focus'']\<rparr>
         \<and> svg_tooltip (render_compact nodes edges h)
           = (let p = (case posMap_compact nodes (node_id n) of
                         Some q \<Rightarrow> q
                       | None \<Rightarrow> \<lparr>pos_x = cx_compact, pos_y = cy_compact\<rparr>)
              in Some \<lparr>tt_x = pos_x p, tt_y = pos_y p - 20,
                       tt_stroke = getNodeColor_compact (node_type n),
                       tt_texts = [if length (node_label n) > 15
                                   then take 14 (node_label n) @ ''..''
                                   else node_label n]\<rparr>)
         \<and> (overlay_tooltip (render_fs nodes' edges' h' vs') = None)
           = (find (\<lambda>n. Some (node_id n) = h') nodes' = None)
         \<and> (svg_tooltip (render_compact nodes' edges' h') = None)
           = (find (\<lambda>n. Some (node_id n) = h') nodes' = None)"
proof -
  have "(overlay_tooltip (render_fs nodes' edges' h' vs') = None)
           = (find (\<lambda>n. Some (node_id n) = h') nodes' = None)"
    by (simp add: render_fs_def Let_def tooltip_fs_def activeNode_fs split: option.splits)
  moreover have "(svg_tooltip (render_compact nodes' edges' h') = None)
           = (find (\<lambda>n. Some (node_id n) = h') nodes' = None)"
    by (simp add: render_compact_def Let_def tooltip_compact_def activeNode_compact
             split: option.splits)
  moreover have "overlay_tooltip (render_fs nodes edges h vs)
           = Some \<lparr>tt_x = 20, tt_y = 20, tt_stroke = getNodeColor_fs (node_type n),
                   tt_texts = [node_label n, node_type n, ''Double click to focus'']\<rparr>"
    by (simp add: render_fs_def Let_def tooltip_fs_def activeNode_fs assms)
  moreover have "svg_tooltip (render_compact nodes edges h)
           = (let p = (case posMap_compact nodes (node_id n) of
                         Some q \<Rightarrow> q
                       | None \<Rightarrow> \<lparr>pos_x = cx_compact, pos_y = cy_compact\<rparr>)
              in Some \<lparr>tt_x = pos_x p, tt_y = pos_y p - 20,
                       tt_stroke = getNodeColor_compact (node_type n),
                       tt_texts = [if length (node_label n) > 15
                                   then take 14 (node_label n) @ ''..''
                                   else node_label n]\<rparr>)"
    by (simp add: render_compact_def Let_def tooltip_compact_def activeNode_compact assms)
  ultimately show ?thesis by blast
qed

text \<open>
  An entity node with a label of 17 characters, hovered, with the view panned and
  zoomed: the full-screen tooltip is at (20, 20) with the label and the type, the
  compact tooltip is 20 units above the centre with the shortened label.
\<close>

theorem tooltip_placement_witness:
  "overlay_tooltip (render_fs [\<lparr>node_id = ''a'', node_label = ''Quarterly revenue'', node_type = ''entity''\<rparr>]
                              [] (Some ''a'') \<lparr>view_x = 35, view_y = -12, view_scale = 2\<rparr>)
     = Some \<lparr>tt_x = 20, tt_y = 20, tt_stroke = ''#06b6d4'',
             tt_texts = [''Quarterly revenue'', ''entity'', ''Double click to focus'']\<rparr>
   \<and> svg_tooltip (render_compact [\<lparr>node_id = ''a'', node_label = ''Quarterly revenue'', node_type = ''entity''\<rparr>]
                                 [] (Some ''a''))
     = Some \<lparr>tt_x = 200, tt_y = 130, tt_stroke = ''#06b6d4'', tt_texts = [''Quarterly reve..'']\<rparr>"
proof -
  let ?n = "\<lparr>node_id = ''a'', node_label = ''Quarterly revenue'', node_type = ''entity''\<rparr>"
  have h: "find (\<lambda>n. Some (node_id n) = Some ''a'') [?n] = Some ?n" by simp
  have p: "posMap_compact [?n] ''a'' = Some \<lparr>pos_x = 200, pos_y = 150\<rparr>"
    by (simp add: posMap_compact_def entities_def actions_def tier2_compact_def risks_def
                  outcomes_def others_def distribute_compact_def Let_def
                  cx_compact_def cy_compact_def width_compact_def height_compact_def)
  from tooltip_placement [OF h, of "[]" "\<lparr>view_x = 35, view_y = -12, view_scale = 2\<rparr>"]
  show ?thesis
    by (simp add: p getNodeColor_fs_def getNodeColor_compact_def Let_def)
qed

end
